theory Spec2Isabelle
  imports Complex_Main "HOL-Library.Word"
begin

section \<open>The D3D12 debug manager (driver/d3d12/d3d12_debug.cpp)\<close>

text \<open>
  A shallow embedding of the parts of \<^verbatim>\<open>D3D12DebugManager\<close> that carry state: the
  glyph ring buffer of the text renderer, the shader cache, the output-window table with
  its descriptor-slot counter, and the command lists that the flip and texture-display
  operations record. Calls into the device, the swap chain, the window system and the
  shader compiler are collaborators: what they answer is an argument of the model, what
  the manager asks of them is recorded in a trace.
\<close>

subsection \<open>Text rendering: the glyph ring buffer\<close>

text \<open>
  Modelled from the spec: \<^verbatim>\<open>AlignUp\<close> is a helper of the common headers, which are not
  part of the source file; it rounds its first argument up to the next multiple of the
  second ("rounded up to a fixed alignment boundary").
\<close>

definition AlignUp :: "nat \<Rightarrow> nat \<Rightarrow> nat" where
  "AlignUp x a = ((x + (a - 1)) div a) * a"

text \<open>\<^verbatim>\<open>Vec4f\<close> is four 32-bit floats; the buffer element of the glyph buffer.\<close>

definition sizeof_Vec4f :: nat where
  "sizeof_Vec4f = 16"

text \<open>
  The members of \<^verbatim>\<open>m_Font\<close> that \<^verbatim>\<open>RenderTextInternal\<close> changes. The cursor and the
  string length are \<^verbatim>\<open>size_t\<close>; they stay far below \<open>2 ^ 32\<close> (the formatted text
  comes from a 4096-byte buffer), so they are natural numbers here.
\<close>

record FontData =
  CharOffset :: nat
  ConstRingIdx :: nat

text \<open>
  What one call for a single line (a text without a newline) did: nothing for the empty
  string, a reservation whose buffer could not be mapped (no draw), or a reservation and
  an instanced draw of as many instances as the text has characters.
\<close>

datatype text_outcome =
    EmptyText
  | MapFailed nat
  | TextDrawn nat nat nat

fun reserved_offset :: "text_outcome \<Rightarrow> nat option" where
  "reserved_offset EmptyText = None"
| "reserved_offset (MapFailed charOffset) = Some charOffset"
| "reserved_offset (TextDrawn charOffset instances constIdx) = Some charOffset"

text \<open>
  \<^verbatim>\<open>RenderTextInternal\<close> on a single line. The constants \<^verbatim>\<open>FONT_BUFFER_CHARS\<close> and
  \<^verbatim>\<open>ARRAY_COUNT(m_Font.Constants)\<close> are declared in the class header, which is not part
  of the source file: they are arguments. \<open>map_ok\<close> says whether mapping the character
  buffer succeeded. The assertion \<^verbatim>\<open>strlen(text) < FONT_MAX_CHARS\<close> does not change what
  the function computes; it is the precondition of the theorems about it.
\<close>

definition RenderTextInternal_line ::
  "nat \<Rightarrow> nat \<Rightarrow> bool \<Rightarrow> FontData \<Rightarrow> string \<Rightarrow> text_outcome \<times> FontData" where
  "RenderTextInternal_line FONT_BUFFER_CHARS NUM_CONSTANTS map_ok font text =
     (if length text = 0 then (EmptyText, font)
      else
        let chars = length text;
            charOffset = (if CharOffset font + chars \<ge> FONT_BUFFER_CHARS then 0
                          else CharOffset font);
            font1 = font\<lparr>CharOffset := charOffset + chars\<rparr>;
            font2 = font1\<lparr>CharOffset := AlignUp (CharOffset font1) (256 div sizeof_Vec4f)\<rparr>
        in if \<not> map_ok then (MapFailed charOffset, font2)
           else (TextDrawn charOffset (length text) (ConstRingIdx font2),
                 font2\<lparr>ConstRingIdx := (ConstRingIdx font2 + 1) mod NUM_CONSTANTS\<rparr>))"

text \<open>
  A run of single-line calls, as the recursion over the lines of a text or successive
  calls of \<^verbatim>\<open>RenderText\<close> make them: the outcomes in order, and the final font state.
\<close>

fun RenderTextInternal_lines ::
  "nat \<Rightarrow> nat \<Rightarrow> FontData \<Rightarrow> (bool \<times> string) list \<Rightarrow> text_outcome list \<times> FontData" where
  "RenderTextInternal_lines cap nc font [] = ([], font)"
| "RenderTextInternal_lines cap nc font ((map_ok, text) # rest) =
     (let (out, font1) = RenderTextInternal_line cap nc map_ok font text;
          (outs, font2) = RenderTextInternal_lines cap nc font1 rest
      in (out # outs, font2))"

text \<open>The offsets a run of calls reserved, in order (every non-empty line reserves).\<close>

definition reserved_offsets ::
  "nat \<Rightarrow> nat \<Rightarrow> FontData \<Rightarrow> (bool \<times> string) list \<Rightarrow> nat list" where
  "reserved_offsets cap nc font calls =
     List.map_filter reserved_offset (fst (RenderTextInternal_lines cap nc font calls))"

subsection \<open>Errors\<close>

text \<open>
  The two ways a call can fail to return: \<^verbatim>\<open>RDCFATAL\<close> (the compiler library or its
  entry point is not there), and a call through a null pointer.
\<close>

datatype error = FatalError | NullDereference

subsection \<open>The shader cache\<close>

text \<open>
  An \<^verbatim>\<open>ID3DBlob\<close> is a reference-counted byte buffer. Blobs live in a store indexed by
  their address; a pointer is an address or null (\<open>None\<close>). A blob whose count has
  fallen to zero has been freed.
\<close>

record ID3DBlob =
  blob_bytes :: "8 word list"
  blob_refs :: nat

type_synonym blob_ptr = "nat option"

text \<open>What \<^verbatim>\<open>D3DCompile\<close> hands back: the \<^verbatim>\<open>HRESULT\<close> and its two out-parameters.\<close>

record compile_result =
  hr_failed :: bool
  byteBlob :: "8 word list option"
  errBlob :: "string option"

text \<open>
  The collaborators of \<^verbatim>\<open>GetShaderBlob\<close>. \<^verbatim>\<open>strhash\<close> (with its default seed) lives in
  the common headers and \<^verbatim>\<open>D3DCOMPILE_NO_PRESHADER\<close> in the compiler's header; neither
  is part of the source file, so they are taken as they come. \<open>d3dcompiler_loaded\<close>
  says whether \<^verbatim>\<open>GetD3DCompiler\<close> finds the library, \<open>has_D3DCompile\<close> whether the
  library exports the entry point.
\<close>

record compiler_env =
  strhash :: "string \<Rightarrow> 32 word \<Rightarrow> 32 word"
  strhash_seed :: "32 word"
  D3DCOMPILE_NO_PRESHADER :: "32 word"
  d3dcompiler_loaded :: bool
  has_D3DCompile :: bool
  D3DCompile :: "string \<Rightarrow> string \<Rightarrow> string \<Rightarrow> 32 word \<Rightarrow> compile_result"

text \<open>
  Modelled from the spec: the persisted cache file, which \<^verbatim>\<open>LoadShaderCache\<close> and
  \<^verbatim>\<open>SaveShaderCache\<close> of common/shader\_cache.h (not part of the source file) read and
  write: "magic number, version number, then a sequence of (32-bit hash, 32-bit byte
  length, raw bytecode bytes) records". The byte length is the length of the bytes.
\<close>

record cache_file =
  file_magic :: "32 word"
  file_version :: "32 word"
  file_entries :: "(32 word \<times> 8 word list) list"

text \<open>
  The shader-cache members of the manager, the blob store, and what the collaborators
  have seen: how often the compiler ran, what was logged as a compile warning, the file
  on disk (if there is one) and how often it was written.
\<close>

record ShaderCache =
  m_ShaderCache :: "32 word \<rightharpoonup> blob_ptr"
  m_ShaderCacheDirty :: bool
  m_CacheShaders :: bool
  blobs :: "nat \<Rightarrow> ID3DBlob"
  next_blob :: nat
  compiler_calls :: nat
  warnings :: "(string \<times> string) list"
  disk_file :: "cache_file option"
  file_writes :: nat

definition AddRef :: "nat \<Rightarrow> ShaderCache \<Rightarrow> ShaderCache" where
  "AddRef p s = s\<lparr>blobs := (blobs s)(p := (blobs s p)\<lparr>blob_refs := blob_refs (blobs s p) + 1\<rparr>)\<rparr>"

definition Release :: "nat \<Rightarrow> ShaderCache \<Rightarrow> ShaderCache" where
  "Release p s = s\<lparr>blobs := (blobs s)(p := (blobs s p)\<lparr>blob_refs := blob_refs (blobs s p) - 1\<rparr>)\<rparr>"

text \<open>\<^verbatim>\<open>SAFE_RELEASE\<close>: release unless null.\<close>

definition SAFE_RELEASE :: "blob_ptr \<Rightarrow> ShaderCache \<Rightarrow> ShaderCache" where
  "SAFE_RELEASE p s = (case p of None \<Rightarrow> s | Some a \<Rightarrow> Release a s)"

text \<open>A blob the compiler (or \<^verbatim>\<open>D3DCreateBlob\<close>) hands out: a new address, one reference.\<close>

definition new_blob :: "8 word list \<Rightarrow> ShaderCache \<Rightarrow> nat \<times> ShaderCache" where
  "new_blob bytes s =
     (next_blob s,
      s\<lparr>blobs := (blobs s)(next_blob s := \<lparr>blob_bytes = bytes, blob_refs = 1\<rparr>),
        next_blob := next_blob s + 1\<rparr>)"

definition shader_hash :: "compiler_env \<Rightarrow> string \<Rightarrow> string \<Rightarrow> 32 word \<Rightarrow> string \<Rightarrow> 32 word" where
  "shader_hash env source entry compileFlags profile =
     xor (strhash env profile (strhash env entry (strhash env source (strhash_seed env))))
         compileFlags"

text \<open>The text that goes to the log: cut to 1024 characters, with an ellipsis.\<close>

definition logerror :: "string \<Rightarrow> string" where
  "logerror errors = (if length errors > 1024 then take 1024 errors @ ''...'' else errors)"

text \<open>
  \<^verbatim>\<open>GetShaderBlob\<close>. The result is the returned string and the content of \<^verbatim>\<open>*srcblob\<close>
  after the call; \<open>srcblob\<close> is its content before (the function does not write it on
  every path).
\<close>

definition GetShaderBlob ::
  "compiler_env \<Rightarrow> string \<Rightarrow> string \<Rightarrow> 32 word \<Rightarrow> string \<Rightarrow> blob_ptr \<Rightarrow> ShaderCache \<Rightarrow>
     (error + string \<times> blob_ptr) \<times> ShaderCache" where
  "GetShaderBlob env source entry compileFlags profile srcblob s =
     (let hash = shader_hash env source entry compileFlags profile in
      case m_ShaderCache s hash of
        Some cached \<Rightarrow>
          (case cached of
             None \<Rightarrow> (Inl NullDereference, s)
           | Some p \<Rightarrow> (Inr ([], Some p), AddRef p s))
      | None \<Rightarrow>
          if \<not> d3dcompiler_loaded env then (Inl FatalError, s)
          else if \<not> has_D3DCompile env then (Inl FatalError, s)
          else
            let flags = and compileFlags (not (D3DCOMPILE_NO_PRESHADER env));
                r = D3DCompile env source entry profile flags;
                s1 = s\<lparr>compiler_calls := compiler_calls s + 1\<rparr>;
                (byteBlob, s2) =
                  (case byteBlob r of
                     None \<Rightarrow> (None, s1)
                   | Some bytes \<Rightarrow> (let (p, s') = new_blob bytes s1 in (Some p, s')));
                errors = (case errBlob r of None \<Rightarrow> [] | Some e \<Rightarrow> e);
                s3 = (case errBlob r of
                        None \<Rightarrow> s2
                      | Some e \<Rightarrow> s2\<lparr>warnings := warnings s2 @ [(entry, logerror errors)]\<rparr>)
            in
              if errBlob r \<noteq> None \<and> hr_failed r then
                (Inr (errors, srcblob), SAFE_RELEASE byteBlob s3)
              else if m_CacheShaders s3 then
                (case byteBlob of
                   None \<Rightarrow>
                     (Inl NullDereference,
                      s3\<lparr>m_ShaderCache := (m_ShaderCache s3)(hash \<mapsto> None)\<rparr>)
                 | Some p \<Rightarrow>
                     (Inr (errors, Some p),
                      (AddRef p (s3\<lparr>m_ShaderCache := (m_ShaderCache s3)(hash \<mapsto> Some p)\<rparr>))
                        \<lparr>m_ShaderCacheDirty := True\<rparr>))
              else (Inr (errors, byteBlob), s3))"

text \<open>
  Modelled from the spec: \<^verbatim>\<open>LoadShaderCache\<close> (common/shader\_cache.h, not part of the
  source file) "attempts to load a persisted cache file matching an expected magic number
  and version; a version/magic mismatch or read failure is treated as an empty cache".
  A file that matches gives one blob per record, made by the \<^verbatim>\<open>Create\<close> callback of
  \<^verbatim>\<open>D3D12BlobShaderCallbacks\<close>; the result says whether the load succeeded.
\<close>

fun load_entries :: "(32 word \<times> 8 word list) list \<Rightarrow> ShaderCache \<Rightarrow> ShaderCache" where
  "load_entries [] s = s"
| "load_entries ((hash, bytes) # rest) s =
     (let (p, s1) = new_blob bytes s
      in load_entries rest (s1\<lparr>m_ShaderCache := (m_ShaderCache s1)(hash \<mapsto> Some p)\<rparr>))"

definition LoadShaderCache :: "32 word \<Rightarrow> 32 word \<Rightarrow> ShaderCache \<Rightarrow> bool \<times> ShaderCache" where
  "LoadShaderCache magic version s =
     (case disk_file s of
        None \<Rightarrow> (False, s)
      | Some f \<Rightarrow>
          if file_magic f = magic \<and> file_version f = version
          then (True, load_entries (file_entries f) s)
          else (False, s))"

text \<open>
  Modelled from the spec: \<^verbatim>\<open>SaveShaderCache\<close> (same header) "serializes every
  still-resident entry (hash, size, raw bytes) in arbitrary order to the cache file".
  The order of the records is the argument \<open>order\<close>, a list of the hashes to write;
  the bytes come through the \<^verbatim>\<open>GetData\<close> and \<^verbatim>\<open>GetSize\<close> callbacks.
\<close>

definition SaveShaderCache :: "32 word \<Rightarrow> 32 word \<Rightarrow> 32 word list \<Rightarrow> ShaderCache \<Rightarrow> ShaderCache" where
  "SaveShaderCache magic version order s =
     s\<lparr>disk_file := Some \<lparr>file_magic = magic, file_version = version,
           file_entries = List.map_filter
             (\<lambda>h. case m_ShaderCache s h of
                     Some (Some p) \<Rightarrow> Some (h, blob_bytes (blobs s p))
                   | _ \<Rightarrow> None) order\<rparr>,
        file_writes := file_writes s + 1\<rparr>"

text \<open>
  The loop of the destructor's other branch: the \<^verbatim>\<open>Destroy\<close> callback (a
  \<^verbatim>\<open>Release\<close>) on the blob of every entry, in the order the map is walked.
\<close>

fun release_entries :: "32 word list \<Rightarrow> ShaderCache \<Rightarrow> (error + unit) \<times> ShaderCache" where
  "release_entries [] s = (Inr (), s)"
| "release_entries (h # hs) s =
     (case m_ShaderCache s h of
        Some (Some p) \<Rightarrow> release_entries hs (Release p s)
      | Some None \<Rightarrow> (Inl NullDereference, s)
      | None \<Rightarrow> release_entries hs s)"

text \<open>
  The constructor, as far as the shader cache goes: the load, the two flags, the five
  shaders it compiles while caching is on (three for texture display from one source, two
  for text from another), and the switch that turns caching off at its end. Each blob is
  dereferenced after its assertion to build a pipeline, and released. The sources come
  from embedded resources and are arguments, as are the magic number, the version
  (members declared in the header) and the flag \<^verbatim>\<open>D3DCOMPILE_WARNINGS_ARE_ERRORS\<close>.
\<close>

fun get_shaders ::
  "compiler_env \<Rightarrow> (string \<times> string \<times> 32 word \<times> string) list \<Rightarrow> ShaderCache \<Rightarrow>
     (error + blob_ptr list) \<times> ShaderCache" where
  "get_shaders env [] s = (Inr [], s)"
| "get_shaders env ((source, entry, compileFlags, profile) # rest) s =
     (case GetShaderBlob env source entry compileFlags profile None s of
        (Inl e, s1) \<Rightarrow> (Inl e, s1)
      | (Inr (errors, blob), s1) \<Rightarrow>
          (case get_shaders env rest s1 of
             (Inl e, s2) \<Rightarrow> (Inl e, s2)
           | (Inr rest_blobs, s2) \<Rightarrow> (Inr (blob # rest_blobs), s2)))"

fun release_all :: "blob_ptr list \<Rightarrow> ShaderCache \<Rightarrow> ShaderCache" where
  "release_all [] s = s"
| "release_all (p # ps) s = release_all ps (SAFE_RELEASE p s)"

definition display_shaders :: "string \<Rightarrow> 32 word \<Rightarrow> (string \<times> string \<times> 32 word \<times> string) list" where
  "display_shaders displayhlsl WARNINGS_ARE_ERRORS =
     [(displayhlsl, ''RENDERDOC_DebugVS'', WARNINGS_ARE_ERRORS, ''vs_5_0''),
      (displayhlsl, ''RENDERDOC_TexDisplayPS'', WARNINGS_ARE_ERRORS, ''ps_5_0''),
      (displayhlsl, ''RENDERDOC_CheckerboardPS'', WARNINGS_ARE_ERRORS, ''ps_5_0'')]"

definition text_shaders :: "string \<Rightarrow> 32 word \<Rightarrow> (string \<times> string \<times> 32 word \<times> string) list" where
  "text_shaders fullhlsl WARNINGS_ARE_ERRORS =
     [(fullhlsl, ''RENDERDOC_TextVS'', WARNINGS_ARE_ERRORS, ''vs_5_0''),
      (fullhlsl, ''RENDERDOC_TextPS'', WARNINGS_ARE_ERRORS, ''ps_5_0'')]"

definition build_pipelines ::
  "compiler_env \<Rightarrow> (string \<times> string \<times> 32 word \<times> string) list \<Rightarrow> ShaderCache \<Rightarrow>
     error + ShaderCache" where
  "build_pipelines env shaders s =
     (case get_shaders env shaders s of
        (Inl e, s1) \<Rightarrow> Inl e
      | (Inr got, s1) \<Rightarrow>
          if None \<in> set got then Inl NullDereference else Inr (release_all got s1))"

definition constructor ::
  "compiler_env \<Rightarrow> 32 word \<Rightarrow> 32 word \<Rightarrow> string \<Rightarrow> string \<Rightarrow> 32 word \<Rightarrow> ShaderCache \<Rightarrow>
     error + ShaderCache" where
  "constructor env magic version displayhlsl fullhlsl WARNINGS_ARE_ERRORS s =
     (let (success, s1) = LoadShaderCache magic version s;
          s2 = s1\<lparr>m_ShaderCacheDirty := \<not> success\<rparr>;
          s3 = s2\<lparr>m_CacheShaders := True\<rparr>
      in case build_pipelines env (display_shaders displayhlsl WARNINGS_ARE_ERRORS) s3 of
           Inl e \<Rightarrow> Inl e
         | Inr s4 \<Rightarrow>
             (case build_pipelines env (text_shaders fullhlsl WARNINGS_ARE_ERRORS) s4 of
                Inl e \<Rightarrow> Inl e
              | Inr s5 \<Rightarrow> Inr (s5\<lparr>m_CacheShaders := False\<rparr>)))"

text \<open>
  The destructor, as far as the shader cache goes. \<open>order\<close> lists the keys of the
  cache in the order the map is walked.
\<close>

definition destructor ::
  "32 word \<Rightarrow> 32 word \<Rightarrow> 32 word list \<Rightarrow> ShaderCache \<Rightarrow> (error + unit) \<times> ShaderCache" where
  "destructor magic version order s =
     (if m_ShaderCacheDirty s then (Inr (), SaveShaderCache magic version order s)
      else release_entries order s)"

text \<open>
  What no call of \<^verbatim>\<open>GetShaderBlob\<close> and no release changes or undoes: the file and the
  count of its writes, the caching switch, a set dirty flag; the compiler count only
  grows, the dirty flag changes only when the compiler ran, and neither the flag nor the
  cache changes while caching is off.
\<close>

definition cache_frame :: "ShaderCache \<Rightarrow> ShaderCache \<Rightarrow> bool" where
  "cache_frame s s' \<longleftrightarrow>
     disk_file s' = disk_file s \<and> file_writes s' = file_writes s \<and>
     m_CacheShaders s' = m_CacheShaders s \<and>
     compiler_calls s \<le> compiler_calls s' \<and>
     (m_ShaderCacheDirty s \<longrightarrow> m_ShaderCacheDirty s') \<and>
     (compiler_calls s' = compiler_calls s \<longrightarrow> m_ShaderCacheDirty s' = m_ShaderCacheDirty s) \<and>
     (\<not> m_CacheShaders s \<longrightarrow>
        m_ShaderCacheDirty s' = m_ShaderCacheDirty s \<and> m_ShaderCache s' = m_ShaderCache s)"

subsection \<open>Example collaborators and states\<close>

text \<open>
  A toy hash (seed plus the lengths), a compiler that rejects every source with a
  diagnostic, one that fails without any, and one that compiles everything to the same
  four bytes; a cold cache in the phase where caching is on; a cache file with the
  five shaders of the constructor under the toy hash.
\<close>

definition failing_compiler :: compiler_env where
  "failing_compiler =
     \<lparr>strhash = (\<lambda>str seed. seed + of_nat (length str)), strhash_seed = 5381,
      D3DCOMPILE_NO_PRESHADER = 256, d3dcompiler_loaded = True, has_D3DCompile = True,
      D3DCompile = (\<lambda>source entry profile flags.
         \<lparr>hr_failed = True, byteBlob = None, errBlob = Some ''error X3000: syntax error''\<rparr>)\<rparr>"

definition silent_failing_compiler :: compiler_env where
  "silent_failing_compiler =
     failing_compiler\<lparr>D3DCompile := (\<lambda>source entry profile flags.
         \<lparr>hr_failed = True, byteBlob = None, errBlob = None\<rparr>)\<rparr>"

definition working_compiler :: compiler_env where
  "working_compiler =
     failing_compiler\<lparr>D3DCompile := (\<lambda>source entry profile flags.
         \<lparr>hr_failed = False, byteBlob = Some [68, 88, 66, 67], errBlob = None\<rparr>)\<rparr>"

definition empty_cache :: ShaderCache where
  "empty_cache =
     \<lparr>m_ShaderCache = Map.empty, m_ShaderCacheDirty = False, m_CacheShaders = True,
      blobs = (\<lambda>p. \<lparr>blob_bytes = [], blob_refs = 0\<rparr>), next_blob = 1, compiler_calls = 0,
      warnings = [], disk_file = None, file_writes = 0\<rparr>"

definition cached_file :: cache_file where
  "cached_file =
     \<lparr>file_magic = 7, file_version = 2,
      file_entries = [(5405, [1]), (5410, [2]), (5412, [3]), (5404, [4])]\<rparr>"

subsection \<open>Device objects and the calls the manager makes\<close>

datatype DXGI_FORMAT =
    DXGI_FORMAT_UNKNOWN
  | DXGI_FORMAT_R8G8B8A8_UNORM
  | DXGI_FORMAT_R8G8B8A8_UNORM_SRGB
  | DXGI_FORMAT_D24_UNORM_S8_UINT
  | DXGI_FORMAT_A8_UNORM
  | DXGI_FORMAT_OTHER nat

datatype D3D12_RESOURCE_STATES =
    D3D12_RESOURCE_STATE_PRESENT
  | D3D12_RESOURCE_STATE_RENDER_TARGET
  | D3D12_RESOURCE_STATE_DEPTH_WRITE
  | D3D12_RESOURCE_STATE_PIXEL_SHADER_RESOURCE
  | D3D12_RESOURCE_STATE_COPY_DEST
  | D3D12_RESOURCE_STATE_COPY_SOURCE
  | D3D12_RESOURCE_STATE_OTHER nat

datatype D3D12_RESOURCE_FLAGS =
    D3D12_RESOURCE_FLAG_NONE
  | D3D12_RESOURCE_FLAG_ALLOW_RENDER_TARGET
  | D3D12_RESOURCE_FLAG_ALLOW_DEPTH_STENCIL

text \<open>
  A resource is its address and the part of its description that the manager reads or
  sets. A swap chain is its description. Pointers to either are \<open>option\<close>s, null
  being \<open>None\<close>.
\<close>

record ID3D12Resource =
  res_addr :: nat
  res_Width :: int
  res_Height :: int
  res_Format :: DXGI_FORMAT
  res_Flags :: D3D12_RESOURCE_FLAGS

record IDXGISwapChain =
  BufferCount :: nat
  BufferWidth :: int
  BufferHeight :: int
  BufferFormat :: DXGI_FORMAT
  SwapFlags :: nat

text \<open>The \<^verbatim>\<open>RECT\<close> of the window system; \<open>top'\<close> is its member \<^verbatim>\<open>top\<close>.\<close>

record RECT =
  left :: int
  top' :: int
  right :: int
  bottom :: int

text \<open>
  A transition barrier. The barrier type and flags are the same (transition, none) in
  every barrier the manager builds and are left out.
\<close>

record D3D12_RESOURCE_BARRIER =
  pResource :: "ID3D12Resource option"
  Subresource :: nat
  StateBefore :: D3D12_RESOURCE_STATES
  StateAfter :: D3D12_RESOURCE_STATES

datatype pipeline_state = TexDisplayPipe | TexDisplayBlendPipe | CheckerboardPipe

datatype cbuffer = GenericVSCbuffer | GenericPSCbuffer

text \<open>
  What the manager asks of the device, a command list or a swap chain, in the order it
  asks. \<^verbatim>\<open>FlushLists\<close> carries its argument when one is written. Clear colours, viewport
  depths and blend factors are floats and are left out of the record.
\<close>

datatype device_call =
    GetNewList
  | Close
  | ExecuteLists
  | FlushLists "bool option"
  | ResourceBarrier "D3D12_RESOURCE_BARRIER list"
  | CopyResource "ID3D12Resource option" "ID3D12Resource option"
  | Present IDXGISwapChain
  | ResizeBuffers nat int int DXGI_FORMAT nat
  | CreateRenderTargetView "ID3D12Resource option" "64 word"
  | CreateDepthStencilView "ID3D12Resource option" "64 word"
  | CreateShaderResourceView ID3D12Resource
  | ClearRenderTargetView "64 word"
  | ClearDepthStencilView "64 word" "8 word"
  | FillBuffer cbuffer
  | OMSetRenderTargets "64 word"
  | RSSetViewports int int
  | RSSetScissorRects int int
  | IASetPrimitiveTopology_TRIANGLESTRIP
  | SetPipelineState pipeline_state
  | SetGraphicsRootSignature
  | SetDescriptorHeaps
  | SetGraphicsRootConstantBufferView nat cbuffer
  | SetGraphicsRootDescriptorTable nat
  | OMSetBlendFactor
  | DrawInstanced nat nat nat nat

subsection \<open>Output windows\<close>

text \<open>
  The \<^verbatim>\<open>OutputWindow\<close> struct (declared in the class header; the fields are those the
  source file uses). \<open>bb0\<close> and \<open>bb1\<close> are \<^verbatim>\<open>bb[0]\<close> and \<^verbatim>\<open>bb[1]\<close>, \<open>swapchain\<close> is
  the member \<^verbatim>\<open>swap\<close>. The pointer \<^verbatim>\<open>dev\<close> to the device is the same in every window.
\<close>

record OutputWindow =
  wnd :: "nat option"
  width :: int
  height :: int
  swapchain :: "IDXGISwapChain option"
  bb0 :: "ID3D12Resource option"
  bb1 :: "ID3D12Resource option"
  bbIdx :: nat
  col :: "ID3D12Resource option"
  depth :: "ID3D12Resource option"
  rtv :: "64 word"
  dsv :: "64 word"

definition bb :: "OutputWindow \<Rightarrow> nat \<Rightarrow> ID3D12Resource option" where
  "bb outw i = (if i = 0 then bb0 outw else bb1 outw)"

text \<open>
  The members of the manager that the output-window functions use, the calls made so
  far, and the next free resource address of the device. Handles and descriptor
  addresses are 64-bit (\<^verbatim>\<open>uint64_t\<close>, \<^verbatim>\<open>SIZE_T\<close>).
\<close>

record D3D12DebugManager =
  m_OutputWindowID :: "64 word"
  m_OutputWindows :: "64 word \<rightharpoonup> OutputWindow"
  m_CurrentOutputWindow :: "64 word"
  m_width :: int
  m_height :: int
  device_calls :: "device_call list"
  next_resource :: nat

text \<open>
  The device as the manager finds it: where the two descriptor heaps start, the
  increment between descriptors of each heap (a 32-bit \<^verbatim>\<open>UINT\<close>), the tracked states of
  the subresources of a resource, and the table of wrapped resources by id.
\<close>

record device_env =
  rtvHeapStart :: "64 word"
  dsvHeapStart :: "64 word"
  rtvIncrement :: "32 word"
  dsvIncrement :: "32 word"
  GetSubresourceStates :: "nat \<Rightarrow> D3D12_RESOURCE_STATES list"
  m_List :: "nat \<rightharpoonup> ID3D12Resource"

text \<open>
  What the window system and the device answer during one call: the client rectangle
  of the window, whether creating or resizing the swap chain succeeds, and whether
  creating the colour and the depth texture succeeds. Getting a buffer of a swap chain
  that was just created or resized yields the buffer.
\<close>

record window_answers =
  client_rect :: RECT
  swapchain_ok :: bool
  colour_ok :: bool
  depth_ok :: bool

definition issue :: "device_call \<Rightarrow> D3D12DebugManager \<Rightarrow> D3D12DebugManager" where
  "issue c s = s\<lparr>device_calls := device_calls s @ [c]\<rparr>"

definition issue_all :: "device_call list \<Rightarrow> D3D12DebugManager \<Rightarrow> D3D12DebugManager" where
  "issue_all cs s = s\<lparr>device_calls := device_calls s @ cs\<rparr>"

text \<open>\<^verbatim>\<open>IDXGISwapChain::GetBuffer\<close>: a resource of the size and format of the chain.\<close>

definition GetBuffer :: "IDXGISwapChain \<Rightarrow> D3D12DebugManager \<Rightarrow> ID3D12Resource \<times> D3D12DebugManager" where
  "GetBuffer sc s =
     (\<lparr>res_addr = next_resource s, res_Width = BufferWidth sc, res_Height = BufferHeight sc,
       res_Format = BufferFormat sc, res_Flags = D3D12_RESOURCE_FLAG_NONE\<rparr>,
      s\<lparr>next_resource := next_resource s + 1\<rparr>)"

text \<open>
  \<^verbatim>\<open>OutputWindow::MakeRTV\<close>. The second test of \<^verbatim>\<open>hr\<close> in the source comes after a call
  that does not assign it, so it never fires. \<open>ok\<close> is whether
  \<^verbatim>\<open>CreateCommittedResource\<close> succeeds.
\<close>

definition MakeRTV ::
  "bool \<Rightarrow> bool \<Rightarrow> OutputWindow \<Rightarrow> D3D12DebugManager \<Rightarrow> error + OutputWindow \<times> D3D12DebugManager" where
  "MakeRTV multisampled ok outw s =
     (let outw1 = outw\<lparr>col := None\<rparr> in
      case bb0 outw1 of
        None \<Rightarrow> Inl NullDereference
      | Some b \<Rightarrow>
          if \<not> ok then Inr (outw1, s)
          else
            let texture = b\<lparr>res_addr := next_resource s,
                            res_Format := DXGI_FORMAT_R8G8B8A8_UNORM_SRGB,
                            res_Flags := D3D12_RESOURCE_FLAG_ALLOW_RENDER_TARGET\<rparr>;
                s1 = s\<lparr>next_resource := next_resource s + 1\<rparr>;
                outw2 = outw1\<lparr>col := Some texture\<rparr>
            in Inr (outw2, issue (CreateRenderTargetView (col outw2) (rtv outw2)) s1))"

text \<open>\<^verbatim>\<open>OutputWindow::MakeDSV\<close>, of the same shape.\<close>

definition MakeDSV ::
  "bool \<Rightarrow> OutputWindow \<Rightarrow> D3D12DebugManager \<Rightarrow> error + OutputWindow \<times> D3D12DebugManager" where
  "MakeDSV ok outw s =
     (let outw1 = outw\<lparr>depth := None\<rparr> in
      case bb0 outw1 of
        None \<Rightarrow> Inl NullDereference
      | Some b \<Rightarrow>
          if \<not> ok then Inr (outw1, s)
          else
            let texture = b\<lparr>res_addr := next_resource s,
                            res_Format := DXGI_FORMAT_D24_UNORM_S8_UINT,
                            res_Flags := D3D12_RESOURCE_FLAG_ALLOW_DEPTH_STENCIL\<rparr>;
                s1 = s\<lparr>next_resource := next_resource s + 1\<rparr>;
                outw2 = outw1\<lparr>depth := Some texture\<rparr>
            in Inr (outw2, issue (CreateDepthStencilView (depth outw2) (dsv outw2)) s1))"

text \<open>
  \<^verbatim>\<open>MakeOutputWindow\<close>. \<open>data\<close> is the window handle, \<open>want_depth\<close> the parameter
  \<^verbatim>\<open>depth\<close>. The result is the returned id.
\<close>

definition MakeOutputWindow ::
  "device_env \<Rightarrow> window_answers \<Rightarrow> nat option \<Rightarrow> bool \<Rightarrow> D3D12DebugManager \<Rightarrow>
     error + 64 word \<times> D3D12DebugManager" where
  "MakeOutputWindow dev ans data want_depth s =
     (let rect = client_rect ans;
          w = right rect - left rect;
          h = bottom rect - top' rect
      in
        if \<not> swapchain_ok ans then Inr (0, s)
        else
          let sc = \<lparr>BufferCount = 2, BufferWidth = w, BufferHeight = h,
                    BufferFormat = DXGI_FORMAT_R8G8B8A8_UNORM, SwapFlags = 0\<rparr>;
              (b0, s1) = GetBuffer sc s;
              (b1, s2) = GetBuffer sc s1;
              outw = \<lparr>wnd = data, width = w, height = h, swapchain = Some sc,
                      bb0 = Some b0, bb1 = Some b1, bbIdx = 0, col = None, depth = None,
                      rtv = rtvHeapStart dev + m_OutputWindowID s2 * ucast (rtvIncrement dev),
                      dsv = dsvHeapStart dev + m_OutputWindowID s2 * ucast (dsvIncrement dev)\<rparr>
          in
            case MakeRTV want_depth (colour_ok ans) outw s2 of
              Inl e \<Rightarrow> Inl e
            | Inr (outw1, s3) \<Rightarrow>
                let s4 = issue (CreateRenderTargetView (col outw1) (rtv outw1)) s3 in
                case (if want_depth then MakeDSV (depth_ok ans) outw1 s4 else Inr (outw1, s4)) of
                  Inl e \<Rightarrow> Inl e
                | Inr (outw2, s5) \<Rightarrow>
                    let wid = m_OutputWindowID s5;
                        s6 = s5\<lparr>m_OutputWindowID := m_OutputWindowID s5 + 1\<rparr>
                    in Inr (wid, s6\<lparr>m_OutputWindows := (m_OutputWindows s6)(wid \<mapsto> outw2)\<rparr>))"

definition DestroyOutputWindow :: "64 word \<Rightarrow> D3D12DebugManager \<Rightarrow> D3D12DebugManager" where
  "DestroyOutputWindow wid s =
     (if wid = 0 \<or> m_OutputWindows s wid = None then s
      else s\<lparr>m_OutputWindows := (m_OutputWindows s)(wid := None)\<rparr>)"

text \<open>
  \<^verbatim>\<open>CheckResizeOutputWindow\<close>. The window is changed in place in the table, so every
  path that returns after the first assignment stores what it has changed.
\<close>

definition store :: "64 word \<Rightarrow> OutputWindow \<Rightarrow> D3D12DebugManager \<Rightarrow> D3D12DebugManager" where
  "store wid outw s = s\<lparr>m_OutputWindows := (m_OutputWindows s)(wid \<mapsto> outw)\<rparr>"

definition CheckResizeOutputWindow ::
  "window_answers \<Rightarrow> 64 word \<Rightarrow> D3D12DebugManager \<Rightarrow> error + bool \<times> D3D12DebugManager" where
  "CheckResizeOutputWindow ans wid s =
     (if wid = 0 \<or> m_OutputWindows s wid = None then Inr (False, s)
      else
        let outw = the (m_OutputWindows s wid) in
        if wnd outw = None \<or> swapchain outw = None then Inr (False, s)
        else
          let rect = client_rect ans;
              w = right rect - left rect;
              h = bottom rect - top' rect
          in
            if w \<noteq> width outw \<or> h \<noteq> height outw then
              let outw1 = outw\<lparr>width := w, height := h\<rparr>;
                  s1 = issue_all [ExecuteLists, FlushLists (Some True)] s
              in
                if width outw1 > 0 \<and> height outw1 > 0 then
                  let outw2 = outw1\<lparr>bb0 := None, bb1 := None\<rparr>;
                      desc = the (swapchain outw2);
                      s2 = issue (ResizeBuffers (BufferCount desc) (width outw2) (height outw2)
                                   (BufferFormat desc) (SwapFlags desc)) s1
                  in
                    if \<not> swapchain_ok ans then Inr (True, store wid outw2 s2)
                    else
                      let sc = desc\<lparr>BufferWidth := width outw2, BufferHeight := height outw2\<rparr>;
                          (b0, s3) = GetBuffer sc s2;
                          (b1, s4) = GetBuffer sc s3;
                          outw3 = outw2\<lparr>swapchain := Some sc, bb0 := Some b0, bb1 := Some b1,
                                        bbIdx := 0\<rparr>
                      in
                        if depth outw3 \<noteq> None then
                          (case MakeRTV True (colour_ok ans) outw3 s4 of
                             Inl e \<Rightarrow> Inl e
                           | Inr (outw4, s5) \<Rightarrow>
                               (case MakeDSV (depth_ok ans) outw4 s5 of
                                  Inl e \<Rightarrow> Inl e
                                | Inr (outw5, s6) \<Rightarrow> Inr (True, store wid outw5 s6)))
                        else
                          (case MakeRTV False (colour_ok ans) outw3 s4 of
                             Inl e \<Rightarrow> Inl e
                           | Inr (outw4, s5) \<Rightarrow> Inr (True, store wid outw4 s5))
                else Inr (True, store wid outw1 s1)
            else Inr (False, s))"


definition ClearOutputWindowColour :: "64 word \<Rightarrow> 'c \<Rightarrow> D3D12DebugManager \<Rightarrow> D3D12DebugManager" where
  "ClearOutputWindowColour wid colour s =
     (if wid = 0 \<or> m_OutputWindows s wid = None then s
      else issue_all [GetNewList, ClearRenderTargetView (rtv (the (m_OutputWindows s wid))), Close] s)"

definition ClearOutputWindowDepth ::
  "64 word \<Rightarrow> 'd \<Rightarrow> 8 word \<Rightarrow> D3D12DebugManager \<Rightarrow> D3D12DebugManager" where
  "ClearOutputWindowDepth wid d stencil s =
     (if wid = 0 \<or> m_OutputWindows s wid = None then s
      else issue_all [GetNewList, ClearDepthStencilView (dsv (the (m_OutputWindows s wid))) stencil,
                  Close] s)"

text \<open>
  Modelled from the spec: \<^verbatim>\<open>SetOutputDimensions\<close> is a member function defined in the
  class header, which is not part of the source file. Binding "makes this surface the
  implicit target for subsequent draw operations", whose size \<^verbatim>\<open>GetWidth\<close> and
  \<^verbatim>\<open>GetHeight\<close> report: it sets the output dimensions (and picks the text pipeline for
  the format, which is not modelled).
\<close>

definition SetOutputDimensions ::
  "int \<Rightarrow> int \<Rightarrow> DXGI_FORMAT \<Rightarrow> D3D12DebugManager \<Rightarrow> D3D12DebugManager" where
  "SetOutputDimensions w h fmt s = s\<lparr>m_width := w, m_height := h\<rparr>"

definition BindOutputWindow ::
  "device_env \<Rightarrow> 64 word \<Rightarrow> bool \<Rightarrow> D3D12DebugManager \<Rightarrow> D3D12DebugManager" where
  "BindOutputWindow dev wid want_depth s =
     (if wid = 0 \<or> m_OutputWindows s wid = None then s
      else
        let outw = the (m_OutputWindows s wid);
            s1 = s\<lparr>m_CurrentOutputWindow := wid\<rparr>
        in if bb0 outw = None then s1
           else SetOutputDimensions (width outw) (height outw) DXGI_FORMAT_UNKNOWN s1)"

text \<open>\<^verbatim>\<open>std::swap\<close> of the two states of a barrier.\<close>

definition swap_states :: "D3D12_RESOURCE_BARRIER \<Rightarrow> D3D12_RESOURCE_BARRIER" where
  "swap_states b = b\<lparr>StateBefore := StateAfter b, StateAfter := StateBefore b\<rparr>"

definition FlipOutputWindow :: "64 word \<Rightarrow> D3D12DebugManager \<Rightarrow> error + D3D12DebugManager" where
  "FlipOutputWindow wid s =
     (if wid = 0 \<or> m_OutputWindows s wid = None then Inr s
      else
        let outw = the (m_OutputWindows s wid) in
        if bb0 outw = None then Inr s
        else
          let barriers =
                [\<lparr>pResource = col outw, Subresource = 0,
                  StateBefore = D3D12_RESOURCE_STATE_RENDER_TARGET,
                  StateAfter = D3D12_RESOURCE_STATE_COPY_SOURCE\<rparr>,
                 \<lparr>pResource = bb outw (bbIdx outw), Subresource = 0,
                  StateBefore = D3D12_RESOURCE_STATE_PRESENT,
                  StateAfter = D3D12_RESOURCE_STATE_COPY_DEST\<rparr>];
              s1 = issue_all [GetNewList,
                          ResourceBarrier barriers,
                          CopyResource (pResource (barriers ! 1)) (pResource (barriers ! 0)),
                          ResourceBarrier (map swap_states barriers),
                          Close,
                          ExecuteLists,
                          FlushLists None] s
          in
            case swapchain outw of
              None \<Rightarrow> Inl NullDereference
            | Some sc \<Rightarrow>
                let s2 = issue (Present sc) s1;
                    outw1 = outw\<lparr>bbIdx := bbIdx outw + 1\<rparr>;
                    outw2 = outw1\<lparr>bbIdx := bbIdx outw1 mod 2\<rparr>
                in Inr (store wid outw2 s2))"

text \<open>\<^verbatim>\<open>AllocRTV\<close>: the descriptor it returns, and the manager with the counter advanced.\<close>

definition AllocRTV :: "device_env \<Rightarrow> D3D12DebugManager \<Rightarrow> 64 word \<times> D3D12DebugManager" where
  "AllocRTV dev s =
     (rtvHeapStart dev + m_OutputWindowID s * ucast (rtvIncrement dev),
      s\<lparr>m_OutputWindowID := m_OutputWindowID s + 1\<rparr>)"

text \<open>
  The constructor's part in this: \<^verbatim>\<open>m_OutputWindowID = 1\<close>, the output dimensions 1 by
  1, an empty table. \<^verbatim>\<open>m_CurrentOutputWindow\<close> is not initialised there; \<open>current\<close>
  is whatever it holds.
\<close>

definition new_manager :: "64 word \<Rightarrow> D3D12DebugManager" where
  "new_manager current =
     \<lparr>m_OutputWindowID = 1, m_OutputWindows = Map.empty, m_CurrentOutputWindow = current,
      m_width = 1, m_height = 1, device_calls = [], next_resource = 1\<rparr>"

text \<open>
  Runs of the manager's output-window operations, with what each drew from the counter:
  the handle a \<^verbatim>\<open>MakeOutputWindow\<close> returned (0 is its failure value, not a handle), or
  the counter value whose descriptor \<^verbatim>\<open>AllocRTV\<close> returned, with that descriptor, or
  nothing.
\<close>

datatype manager_op =
    Make window_answers "nat option" bool
  | Alloc
  | Destroy "64 word"
  | CheckResize window_answers "64 word"
  | Flip "64 word"
  | Bind "64 word" bool
  | ClearColour "64 word"
  | ClearDepth "64 word" "8 word"

datatype allocation = Handle "64 word" | Nothing | Slot "64 word" "64 word"

fun drawn :: "allocation \<Rightarrow> 64 word option" where
  "drawn (Handle wid) = Some wid"
| "drawn Nothing = None"
| "drawn (Slot index descriptor) = Some index"

fun step :: "device_env \<Rightarrow> manager_op \<Rightarrow> D3D12DebugManager \<Rightarrow> error + allocation \<times> D3D12DebugManager" where
  "step dev (Make ans data want_depth) s =
     (case MakeOutputWindow dev ans data want_depth s of
        Inl e \<Rightarrow> Inl e
      | Inr (wid, s1) \<Rightarrow> Inr (if wid = 0 then Nothing else Handle wid, s1))"
| "step dev Alloc s =
     (let index = m_OutputWindowID s;
          (descriptor, s1) = AllocRTV dev s
      in Inr (Slot index descriptor, s1))"
| "step dev (Destroy wid) s = Inr (Nothing, DestroyOutputWindow wid s)"
| "step dev (CheckResize ans wid) s =
     (case CheckResizeOutputWindow ans wid s of
        Inl e \<Rightarrow> Inl e
      | Inr (resized, s1) \<Rightarrow> Inr (Nothing, s1))"
| "step dev (Flip wid) s =
     (case FlipOutputWindow wid s of
        Inl e \<Rightarrow> Inl e
      | Inr s1 \<Rightarrow> Inr (Nothing, s1))"
| "step dev (Bind wid want_depth) s = Inr (Nothing, BindOutputWindow dev wid want_depth s)"
| "step dev (ClearColour wid) s = Inr (Nothing, ClearOutputWindowColour wid () s)"
| "step dev (ClearDepth wid stencil) s = Inr (Nothing, ClearOutputWindowDepth wid () stencil s)"

fun run_ops ::
  "device_env \<Rightarrow> manager_op list \<Rightarrow> D3D12DebugManager \<Rightarrow> error + allocation list \<times> D3D12DebugManager" where
  "run_ops dev [] s = Inr ([], s)"
| "run_ops dev (op # ops) s =
     (case step dev op s of
        Inl e \<Rightarrow> Inl e
      | Inr (a, s1) \<Rightarrow>
          (case run_ops dev ops s1 of
             Inl e \<Rightarrow> Inl e
           | Inr (as, s2) \<Rightarrow> Inr (a # as, s2)))"

text \<open>The size of the client area that \<^verbatim>\<open>GetClientRect\<close> reports.\<close>

definition client_width :: "window_answers \<Rightarrow> int" where
  "client_width ans = right (client_rect ans) - left (client_rect ans)"

definition client_height :: "window_answers \<Rightarrow> int" where
  "client_height ans = bottom (client_rect ans) - top' (client_rect ans)"

text \<open>
  What holds of every window in the table in every state the operations reach: its two
  descriptors are those of its handle, it has its swap chain, and its back-buffer index
  is 0 or 1.
\<close>

definition window_inv :: "device_env \<Rightarrow> D3D12DebugManager \<Rightarrow> bool" where
  "window_inv dev s \<longleftrightarrow>
     (\<forall>wid outw. m_OutputWindows s wid = Some outw \<longrightarrow>
        rtv outw = rtvHeapStart dev + wid * ucast (rtvIncrement dev) \<and>
        dsv outw = dsvHeapStart dev + wid * ucast (dsvIncrement dev) \<and>
        swapchain outw \<noteq> None \<and> bbIdx outw < 2)"

text \<open>
  An example device, a window whose client area is 640 by 480 and later 800 by 600, and
  the manager after it made an output window for it and flipped it once.
\<close>

definition example_device :: device_env where
  "example_device =
     \<lparr>rtvHeapStart = 4096, dsvHeapStart = 8192, rtvIncrement = 32, dsvIncrement = 8,
      GetSubresourceStates =
        (\<lambda>r. [D3D12_RESOURCE_STATE_RENDER_TARGET, D3D12_RESOURCE_STATE_COPY_DEST]),
      m_List = [7 \<mapsto> \<lparr>res_addr = 70, res_Width = 256, res_Height = 128,
                        res_Format = DXGI_FORMAT_R8G8B8A8_UNORM,
                        res_Flags = D3D12_RESOURCE_FLAG_ALLOW_RENDER_TARGET\<rparr>,
                8 \<mapsto> \<lparr>res_addr = 80, res_Width = 16, res_Height = 16,
                        res_Format = DXGI_FORMAT_UNKNOWN,
                        res_Flags = D3D12_RESOURCE_FLAG_NONE\<rparr>]\<rparr>"

definition window_640x480 :: window_answers where
  "window_640x480 =
     \<lparr>client_rect = \<lparr>left = 0, top' = 0, right = 640, bottom = 480\<rparr>,
      swapchain_ok = True, colour_ok = True, depth_ok = True\<rparr>"

definition window_800x600 :: window_answers where
  "window_800x600 =
     \<lparr>client_rect = \<lparr>left = 0, top' = 0, right = 800, bottom = 600\<rparr>,
      swapchain_ok = True, colour_ok = True, depth_ok = True\<rparr>"

definition flipped_once :: D3D12DebugManager where
  "flipped_once =
     (case run_ops example_device [Make window_640x480 (Some 1) False, Flip 1] (new_manager 0) of
        Inr (allocs, s) \<Rightarrow> s
      | Inl e \<Rightarrow> new_manager 0)"

subsection \<open>Texture display\<close>

text \<open>
  Single-precision arithmetic is not modelled bit by bit: the operations
  \<^verbatim>\<open>RenderTexture\<close> uses on the range are taken as an interface, so that what is proved
  holds for every way of computing them, IEEE arithmetic included. \<open>f_le\<close> is
  \<^verbatim>\<open><=\<close>, \<open>f_isnan\<close> and \<open>f_finite\<close> are \<^verbatim>\<open>_isnan\<close> and \<^verbatim>\<open>_finite\<close>, \<open>f_one\<close> is
  \<^verbatim>\<open>1.0f\<close>, \<open>f_nudge\<close> is \<^verbatim>\<open>0.00001f\<close>.
\<close>

record 'f float_ops =
  f_add :: "'f \<Rightarrow> 'f \<Rightarrow> 'f"
  f_sub :: "'f \<Rightarrow> 'f \<Rightarrow> 'f"
  f_div :: "'f \<Rightarrow> 'f \<Rightarrow> 'f"
  f_le :: "'f \<Rightarrow> 'f \<Rightarrow> bool"
  f_isnan :: "'f \<Rightarrow> bool"
  f_finite :: "'f \<Rightarrow> bool"
  f_one :: 'f
  f_nudge :: 'f
  FLT_MAX :: 'f

datatype TextureDisplayOverlay =
    eTexOverlay_None
  | eTexOverlay_NaN
  | eTexOverlay_Clipping
  | eTexOverlay_Other nat

text \<open>
  The display configuration. A \<^verbatim>\<open>ResourceId\<close> is a number, the null id
  \<^verbatim>\<open>ResourceId()\<close> being 0.
\<close>

record 'f TextureDisplay =
  texid :: nat
  rangemin :: 'f
  rangemax :: 'f
  scale :: 'f
  offx :: 'f
  offy :: 'f
  HDRMul :: 'f
  Red :: bool
  Green :: bool
  Blue :: bool
  Alpha :: bool
  FlipY :: bool
  rawoutput :: bool
  linearDisplayAsGamma :: bool
  overlay :: TextureDisplayOverlay
  mip :: nat
  sliceFace :: nat
  sampleIdx :: "32 word"
  CustomShader :: nat

text \<open>
  The two range members of \<^verbatim>\<open>DebugPixelCBufferData\<close>. The other members of the two
  constant buffers (channels, scale, position, slice, display format flags) are computed
  from the configuration and the resource description without any effect on the calls
  recorded below, and are not modelled.
\<close>

record 'f DebugPixelCBufferData =
  RangeMinimum :: 'f
  InverseRangeSize :: 'f

text \<open>The first lines on the range: the nudge of \<^verbatim>\<open>cfg.rangemax\<close>, then the pixel data.\<close>

definition nudge_range :: "'f float_ops \<Rightarrow> 'f TextureDisplay \<Rightarrow> 'f TextureDisplay" where
  "nudge_range fl cfg =
     (if f_le fl (rangemax cfg) (rangemin cfg)
      then cfg\<lparr>rangemax := f_add fl (rangemax cfg) (f_nudge fl)\<rparr>
      else cfg)"

definition range_pixelData :: "'f float_ops \<Rightarrow> 'f TextureDisplay \<Rightarrow> 'f DebugPixelCBufferData" where
  "range_pixelData fl cfg =
     (let pixelData = \<lparr>RangeMinimum = rangemin cfg,
                       InverseRangeSize =
                         f_div fl (f_one fl) (f_sub fl (rangemax cfg) (rangemin cfg))\<rparr>
      in if f_isnan fl (InverseRangeSize pixelData) \<or> \<not> f_finite fl (InverseRangeSize pixelData)
         then pixelData\<lparr>InverseRangeSize := FLT_MAX fl\<rparr>
         else pixelData)"

text \<open>
  \<^verbatim>\<open>m_OutputWindows[m_CurrentOutputWindow]\<close>: the subscript operator of the map makes an
  entry for a key that has none, with every member zero.
\<close>

definition zero_window :: OutputWindow where
  "zero_window =
     \<lparr>wnd = None, width = 0, height = 0, swapchain = None, bb0 = None, bb1 = None,
      bbIdx = 0, col = None, depth = None, rtv = 0, dsv = 0\<rparr>"

definition current_window :: "D3D12DebugManager \<Rightarrow> OutputWindow \<times> D3D12DebugManager" where
  "current_window s =
     (case m_OutputWindows s (m_CurrentOutputWindow s) of
        Some outw \<Rightarrow> (outw, s)
      | None \<Rightarrow> (zero_window, store (m_CurrentOutputWindow s) zero_window s))"

text \<open>The barrier that \<^verbatim>\<open>RenderTexture\<close> builds for subresource \<open>i\<close>.\<close>

definition to_shader_resource ::
  "ID3D12Resource \<Rightarrow> D3D12_RESOURCE_STATES list \<Rightarrow> nat \<Rightarrow> D3D12_RESOURCE_BARRIER" where
  "to_shader_resource resource states i =
     \<lparr>pResource = Some resource, Subresource = i, StateBefore = states ! i,
      StateAfter = D3D12_RESOURCE_STATE_PIXEL_SHADER_RESOURCE\<rparr>"

text \<open>
  \<^verbatim>\<open>RenderTexture\<close>. The result is the returned flag and, when the function got as far
  as filling the pixel constant buffer, what it wrote there. The resource is looked up
  in the table of wrapped resources by \<^verbatim>\<open>cfg.texid\<close>, which is also its id for the
  tracked states; an id without a resource gives a null pointer. For a resource without
  subresource states the barrier calls are made with no barriers.
\<close>

definition RenderTexture ::
  "'f float_ops \<Rightarrow> device_env \<Rightarrow> 'f TextureDisplay \<Rightarrow> bool \<Rightarrow> D3D12DebugManager \<Rightarrow>
     error + (bool \<times> 'f DebugPixelCBufferData option) \<times> D3D12DebugManager" where
  "RenderTexture fl dev cfg0 blendAlpha s =
     (let cfg = nudge_range fl cfg0;
          pixelData = range_pixelData fl cfg
      in case m_List dev (texid cfg) of
           None \<Rightarrow> Inl NullDereference
         | Some resource \<Rightarrow>
             if res_Format resource = DXGI_FORMAT_UNKNOWN then Inr ((False, None), s)
             else
               let s1 = issue_all [CreateShaderResourceView resource,
                                   FillBuffer GenericVSCbuffer,
                                   FillBuffer GenericPSCbuffer] s;
                   states = GetSubresourceStates dev (texid cfg);
                   barriers = map (to_shader_resource resource states) [0..<length states];
                   (outw, s2) = current_window s1;
                   s3 = issue_all
                          [GetNewList,
                           ResourceBarrier barriers,
                           OMSetRenderTargets (rtv outw),
                           RSSetViewports (width outw) (height outw),
                           RSSetScissorRects (width outw) (height outw),
                           IASetPrimitiveTopology_TRIANGLESTRIP,
                           SetPipelineState
                             (if rawoutput cfg \<or> \<not> blendAlpha \<or> CustomShader cfg \<noteq> 0
                              then TexDisplayPipe else TexDisplayBlendPipe),
                           SetGraphicsRootSignature,
                           SetDescriptorHeaps,
                           SetGraphicsRootConstantBufferView 0 GenericVSCbuffer,
                           SetGraphicsRootConstantBufferView 1 GenericPSCbuffer,
                           SetGraphicsRootDescriptorTable 2,
                           SetGraphicsRootDescriptorTable 3,
                           OMSetBlendFactor,
                           DrawInstanced 4 1 0 0,
                           ResourceBarrier (map swap_states barriers),
                           Close,
                           ExecuteLists,
                           FlushLists None] s2
               in Inr ((True, Some pixelData), s3))"

text \<open>
  Modelled from the spec: the device's side of "explicit resource-state (barrier)
  transitions". A transition barrier on a subresource of the resource that is in the
  barrier's state before moves it to the barrier's state after; on a subresource that
  is in another state, or that the resource does not have, it is an error (\<open>None\<close>).
  The tracked states of a resource after a sequence of calls are what the barriers among
  them leave.
\<close>

definition transition ::
  "ID3D12Resource \<Rightarrow> D3D12_RESOURCE_BARRIER \<Rightarrow> D3D12_RESOURCE_STATES list \<Rightarrow>
     D3D12_RESOURCE_STATES list option" where
  "transition resource b states =
     (if pResource b \<noteq> Some resource then Some states
      else if Subresource b < length states \<and> states ! Subresource b = StateBefore b
      then Some (states[Subresource b := StateAfter b])
      else None)"

fun transitions ::
  "ID3D12Resource \<Rightarrow> D3D12_RESOURCE_BARRIER list \<Rightarrow> D3D12_RESOURCE_STATES list \<Rightarrow>
     D3D12_RESOURCE_STATES list option" where
  "transitions resource [] states = Some states"
| "transitions resource (b # bs) states =
     (case transition resource b states of
        None \<Rightarrow> None
      | Some states' \<Rightarrow> transitions resource bs states')"

fun states_after ::
  "ID3D12Resource \<Rightarrow> device_call list \<Rightarrow> D3D12_RESOURCE_STATES list \<Rightarrow>
     D3D12_RESOURCE_STATES list option" where
  "states_after resource [] states = Some states"
| "states_after resource (ResourceBarrier bs # cs) states =
     (case transitions resource bs states of
        None \<Rightarrow> None
      | Some states' \<Rightarrow> states_after resource cs states')"
| "states_after resource (c # cs) states = states_after resource cs states"

text \<open>
  An instance of the float interface for examples: numbers with one non-finite value
  (\<open>None\<close>), exact except that an addend too small against the other operand is lost,
  as in rounding; dividing by zero is not finite.
\<close>

definition lift2 :: "(real \<Rightarrow> real \<Rightarrow> real option) \<Rightarrow> real option \<Rightarrow> real option \<Rightarrow> real option" where
  "lift2 f a b = (case a of None \<Rightarrow> None | Some x \<Rightarrow> (case b of None \<Rightarrow> None | Some y \<Rightarrow> f x y))"

definition example_floats :: "real option float_ops" where
  "example_floats =
     \<lparr>f_add = lift2 (\<lambda>x y. if \<bar>y\<bar> * 10000000 < \<bar>x\<bar> then Some x else Some (x + y)),
      f_sub = lift2 (\<lambda>x y. Some (x - y)),
      f_div = lift2 (\<lambda>x y. if y = 0 then None else Some (x / y)),
      f_le = (\<lambda>a b. case a of None \<Rightarrow> False
                      | Some x \<Rightarrow> (case b of None \<Rightarrow> False | Some y \<Rightarrow> x \<le> y)),
      f_isnan = (\<lambda>a. False),
      f_finite = (\<lambda>a. a \<noteq> None),
      f_one = Some 1,
      f_nudge = Some (1 / 100000),
      FLT_MAX = Some 340282346638528859811704183484516925440\<rparr>"

definition example_display :: "real option TextureDisplay" where
  "example_display =
     \<lparr>texid = 7, rangemin = Some 1000000, rangemax = Some 1000000, scale = Some 1,
      offx = Some 0, offy = Some 0, HDRMul = Some (-1),
      Red = True, Green = True, Blue = True, Alpha = False, FlipY = False,
      rawoutput = False, linearDisplayAsGamma = True, overlay = eTexOverlay_NaN,
      mip = 0, sliceFace = 0, sampleIdx = 0, CustomShader = 0\<rparr>"

subsection \<open>Sessions with render calls\<close>

text \<open>
  \<^verbatim>\<open>RenderCheckerboard\<close>. The two colours only go into the constant buffers. Like
  \<^verbatim>\<open>RenderTexture\<close> it takes its target from \<^verbatim>\<open>m_OutputWindows[m_CurrentOutputWindow]\<close>.
\<close>

definition RenderCheckerboard :: "'c \<Rightarrow> 'c \<Rightarrow> D3D12DebugManager \<Rightarrow> D3D12DebugManager" where
  "RenderCheckerboard light dark s =
     (let s1 = issue_all [FillBuffer GenericVSCbuffer, FillBuffer GenericPSCbuffer] s;
          (outw, s2) = current_window s1
      in issue_all
           [GetNewList,
            OMSetRenderTargets (rtv outw),
            RSSetViewports (width outw) (height outw),
            RSSetScissorRects (width outw) (height outw),
            IASetPrimitiveTopology_TRIANGLESTRIP,
            SetPipelineState CheckerboardPipe,
            SetGraphicsRootSignature,
            SetDescriptorHeaps,
            SetGraphicsRootConstantBufferView 0 GenericVSCbuffer,
            SetGraphicsRootConstantBufferView 1 GenericPSCbuffer,
            SetGraphicsRootDescriptorTable 2,
            SetGraphicsRootDescriptorTable 3,
            OMSetBlendFactor,
            DrawInstanced 4 1 0 0,
            Close,
            ExecuteLists,
            FlushLists None] s2)"

text \<open>
  Runs in which the two render functions are called between the output-window
  operations, with what each step did to the table's keys: an output-window operation
  drew from the counter what \<open>step\<close> says; a render call that reached the line
  \<^verbatim>\<open>OutputWindow &outw = m_OutputWindows[m_CurrentOutputWindow]\<close> indexed the table with
  the value \<^verbatim>\<open>m_CurrentOutputWindow\<close> had; a \<^verbatim>\<open>RenderTexture\<close> call that returned
  false before that line did neither.
\<close>

datatype 'f session_op =
    WindowOp manager_op
  | Texture "'f TextureDisplay" bool
  | Checkerboard

datatype session_event = Drew allocation | Indexed "64 word" | Skipped

fun session_step ::
  "'f float_ops \<Rightarrow> device_env \<Rightarrow> 'f session_op \<Rightarrow> D3D12DebugManager \<Rightarrow>
     error + session_event \<times> D3D12DebugManager" where
  "session_step fl dev (WindowOp op) s =
     (case step dev op s of
        Inl e \<Rightarrow> Inl e
      | Inr (a, s1) \<Rightarrow> Inr (Drew a, s1))"
| "session_step fl dev (Texture cfg blendAlpha) s =
     (case RenderTexture fl dev cfg blendAlpha s of
        Inl e \<Rightarrow> Inl e
      | Inr ((drew, written), s1) \<Rightarrow>
          Inr (if drew then Indexed (m_CurrentOutputWindow s) else Skipped, s1))"
| "session_step fl dev Checkerboard s =
     Inr (Indexed (m_CurrentOutputWindow s), RenderCheckerboard () () s)"

fun run_session ::
  "'f float_ops \<Rightarrow> device_env \<Rightarrow> 'f session_op list \<Rightarrow> D3D12DebugManager \<Rightarrow>
     error + session_event list \<times> D3D12DebugManager" where
  "run_session fl dev [] s = Inr ([], s)"
| "run_session fl dev (op # ops) s =
     (case session_step fl dev op s of
        Inl e \<Rightarrow> Inl e
      | Inr (ev, s1) \<Rightarrow>
          (case run_session fl dev ops s1 of
             Inl e \<Rightarrow> Inl e
           | Inr (evs, s2) \<Rightarrow> Inr (ev # evs, s2)))"



subsection \<open>Facts about the glyph ring buffer\<close>

lemma AlignUp_ge: "0 < a \<Longrightarrow> x \<le> AlignUp x a"
proof -
  assume a: "0 < a"
  have "x + (a - 1) < ((x + (a - 1)) div a) * a + a"
    using a by (metis add.commute div_mult_mod_eq add_less_cancel_left mod_less_divisor mult.commute)
  then show ?thesis using a by (simp add: AlignUp_def)
qed

lemma AlignUp_less: "0 < a \<Longrightarrow> AlignUp x a < x + a"
proof -
  assume a: "0 < a"
  have "((x + (a - 1)) div a) * a \<le> x + (a - 1)"
    by (rule div_times_less_eq_dividend)
  then show ?thesis using a unfolding AlignUp_def by linarith
qed

lemma AlignUp_dvd: "a dvd AlignUp x a"
  by (simp add: AlignUp_def)

lemma line_offset:
  "str \<noteq> [] \<Longrightarrow>
   reserved_offset (fst (RenderTextInternal_line cap nc ok font str)) =
     Some (if CharOffset font + length str \<ge> cap then 0 else CharOffset font)"
  by (simp add: RenderTextInternal_line_def Let_def)

lemma line_cursor:
  "str \<noteq> [] \<Longrightarrow>
   CharOffset (snd (RenderTextInternal_line cap nc ok font str)) =
     AlignUp ((if CharOffset font + length str \<ge> cap then 0 else CharOffset font) + length str) 16"
  by (simp add: RenderTextInternal_line_def Let_def sizeof_Vec4f_def)

lemma reserved_offsets_Nil: "reserved_offsets cap nc font [] = []"
  by (simp add: reserved_offsets_def map_filter_simps)

lemma reserved_offsets_Cons:
  "str \<noteq> [] \<Longrightarrow>
   reserved_offsets cap nc font ((ok, str) # rest) =
     (if CharOffset font + length str \<ge> cap then 0 else CharOffset font) #
     reserved_offsets cap nc (snd (RenderTextInternal_line cap nc ok font str)) rest"
  using line_offset [of str cap nc ok font]
  by (auto simp: reserved_offsets_def map_filter_simps split: prod.splits)

lemma length_reserved_offsets:
  "\<forall>c \<in> set calls. snd c \<noteq> [] \<Longrightarrow> length (reserved_offsets cap nc font calls) = length calls"
proof (induction calls arbitrary: font)
  case Nil
  then show ?case by (simp add: reserved_offsets_Nil)
next
  case (Cons c calls)
  obtain ok str where c: "c = (ok, str)" by (cases c)
  with Cons.prems have "str \<noteq> []" by simp
  with Cons c show ?case by (simp add: reserved_offsets_Cons)
qed

lemma sorted_offsets_sum:
  assumes "2 * M + 16 \<le> cap"
    and "\<forall>c \<in> set calls. snd c \<noteq> [] \<and> length (snd c) < M"
    and "calls \<noteq> []"
    and "sorted (reserved_offsets cap nc font calls)"
  shows "hd (reserved_offsets cap nc font calls) + sum_list (map (\<lambda>c. length (snd c)) calls) \<le> cap"
  using assms(2-4)
proof (induction calls arbitrary: font)
  case Nil
  then show ?case by simp
next
  case (Cons c calls)
  obtain ok str where c: "c = (ok, str)" by (cases c)
  from Cons.prems c have ne: "str \<noteq> []" and lt: "length str < M" by simp_all
  let ?off = "if CharOffset font + length str \<ge> cap then 0 else CharOffset font"
  let ?font = "snd (RenderTextInternal_line cap nc ok font str)"
  have offs: "reserved_offsets cap nc font (c # calls) = ?off # reserved_offsets cap nc ?font calls"
    using ne c by (simp add: reserved_offsets_Cons)
  have first: "?off + length str \<le> cap"
    using lt assms(1) by auto
  have hd1: "hd (reserved_offsets cap nc font (c # calls)) = ?off"
    using offs by simp
  have total: "sum_list (map (\<lambda>c. length (snd c)) (c # calls)) =
      length str + sum_list (map (\<lambda>c. length (snd c)) calls)"
    using c by simp
  show ?case
  proof (cases calls)
    case Nil
    then show ?thesis unfolding hd1 total using first by simp
  next
    case (Cons c2 calls2)
    obtain ok2 str2 where c2: "c2 = (ok2, str2)" by (cases c2)
    from Cons.prems(1) Cons c2 have ne2: "str2 \<noteq> []" and lt2: "length str2 < M" by simp_all
    let ?off2 = "if CharOffset ?font + length str2 \<ge> cap then 0 else CharOffset ?font"
    have offs2: "reserved_offsets cap nc ?font calls =
        ?off2 # reserved_offsets cap nc (snd (RenderTextInternal_line cap nc ok2 ?font str2)) calls2"
      using ne2 c2 Cons by (simp add: reserved_offsets_Cons)
    have cur: "CharOffset ?font = AlignUp (?off + length str) 16"
      using ne by (rule line_cursor)
    have sorted_rest: "sorted (reserved_offsets cap nc ?font calls)"
      using Cons.prems(3) offs by simp
    have le: "?off \<le> ?off2"
      using Cons.prems(3) offs offs2 by simp
    have IH: "hd (reserved_offsets cap nc ?font calls) + sum_list (map (\<lambda>c. length (snd c)) calls) \<le> cap"
      using Cons.IH [of ?font] Cons.prems(1) Cons sorted_rest by simp
    have ge: "?off + length str \<le> CharOffset ?font"
      using cur AlignUp_ge [of 16 "?off + length str"] by simp
    have less: "CharOffset ?font < ?off + length str + 16"
      using cur AlignUp_less [of 16 "?off + length str"] by simp
    have nowrap: "\<not> (CharOffset ?font + length str2 \<ge> cap)"
    proof
      assume w: "CharOffset ?font + length str2 \<ge> cap"
      then have "?off2 = 0" by simp
      with le have "?off = 0" by simp
      with less have "CharOffset ?font < length str + 16" by simp
      with lt lt2 assms(1) w show False by linarith
    qed
    then have "?off2 = CharOffset ?font" by simp
    with offs2 have hd2: "hd (reserved_offsets cap nc ?font calls) = CharOffset ?font" by simp
    show ?thesis
      unfolding hd1 total using IH hd2 ge by linarith
  qed
qed

lemma wrap_descends:
  assumes "2 * M + 16 \<le> cap"
    and "\<forall>c \<in> set calls. snd c \<noteq> [] \<and> length (snd c) < M"
    and "cap < sum_list (map (\<lambda>c. length (snd c)) calls)"
  shows "\<exists>i j. i < j \<and> j < length (reserved_offsets cap nc font calls) \<and>
           reserved_offsets cap nc font calls ! j < reserved_offsets cap nc font calls ! i"
proof -
  from assms(3) have ne: "calls \<noteq> []" by auto
  have "\<not> sorted (reserved_offsets cap nc font calls)"
    using sorted_offsets_sum [OF assms(1,2) ne, of nc font] assms(3) by auto
  then show ?thesis
    by (auto simp: sorted_iff_nth_mono_less not_le)
qed

text \<open>
  Claim C2. A single-line call with a non-empty text of \<open>n\<close> characters that meets the
  function's assertion (\<open>n < FONT_MAX_CHARS\<close>, where the per-draw limit is not larger
  than the buffer) reserves at offset 0 when cursor plus \<open>n\<close> reaches or exceeds
  \<open>FONT_BUFFER_CHARS\<close> and at the cursor otherwise; the reserved region ends inside the
  buffer; the new cursor is the end of the region rounded up to the next multiple of
  \<open>256 / sizeof(Vec4f) = 16\<close> elements. In a run of such calls whose character counts
  sum to more than the capacity, some later call reserves at a smaller offset than an
  earlier one (here the per-draw limit leaves room for two draws and one alignment gap,
  as 256 against 8192 does).
\<close>

theorem ring_reservation:
  assumes "str \<noteq> []" and "length str < FONT_MAX_CHARS" and "FONT_MAX_CHARS \<le> cap"
  shows "(\<exists>off. reserved_offset (fst (RenderTextInternal_line cap nc ok font str)) = Some off \<and>
            off = (if CharOffset font + length str \<ge> cap then 0 else CharOffset font) \<and>
            (CharOffset font + length str > cap \<longrightarrow> off = 0) \<and>
            off + length str \<le> cap \<and>
            CharOffset (snd (RenderTextInternal_line cap nc ok font str)) =
              AlignUp (off + length str) (256 div sizeof_Vec4f) \<and>
            off + length str \<le> CharOffset (snd (RenderTextInternal_line cap nc ok font str)) \<and>
            CharOffset (snd (RenderTextInternal_line cap nc ok font str)) < off + length str + 16 \<and>
            16 dvd CharOffset (snd (RenderTextInternal_line cap nc ok font str))) \<and>
         (\<forall>calls.
            2 * FONT_MAX_CHARS + 16 \<le> cap \<and>
            (\<forall>c \<in> set calls. snd c \<noteq> [] \<and> length (snd c) < FONT_MAX_CHARS) \<and>
            cap < sum_list (map (\<lambda>c. length (snd c)) calls) \<longrightarrow>
            (\<exists>i j. i < j \<and> j < length (reserved_offsets cap nc font calls) \<and>
               reserved_offsets cap nc font calls ! j < reserved_offsets cap nc font calls ! i))"
proof -
  let ?off = "if CharOffset font + length str \<ge> cap then 0 else CharOffset font"
  let ?font = "snd (RenderTextInternal_line cap nc ok font str)"
  have off: "reserved_offset (fst (RenderTextInternal_line cap nc ok font str)) = Some ?off"
    using assms(1) by (rule line_offset)
  have cur: "CharOffset ?font = AlignUp (?off + length str) 16"
    using assms(1) by (rule line_cursor)
  have fits: "?off + length str \<le> cap"
    using assms(2,3) by auto
  have ge: "?off + length str \<le> CharOffset ?font"
    unfolding cur by (rule AlignUp_ge) simp
  have less: "CharOffset ?font < ?off + length str + 16"
    unfolding cur by (rule AlignUp_less) simp
  have dvd: "16 dvd CharOffset ?font"
    unfolding cur by (rule AlignUp_dvd)
  have wrap: "CharOffset font + length str > cap \<longrightarrow> ?off = 0"
    by simp
  have single: "\<exists>off. reserved_offset (fst (RenderTextInternal_line cap nc ok font str)) = Some off \<and>
            off = ?off \<and>
            (CharOffset font + length str > cap \<longrightarrow> off = 0) \<and>
            off + length str \<le> cap \<and>
            CharOffset ?font = AlignUp (off + length str) (256 div sizeof_Vec4f) \<and>
            off + length str \<le> CharOffset ?font \<and>
            CharOffset ?font < off + length str + 16 \<and>
            16 dvd CharOffset ?font"
    using off cur fits ge less dvd wrap by (simp add: sizeof_Vec4f_def)
  have run: "\<forall>calls.
            2 * FONT_MAX_CHARS + 16 \<le> cap \<and>
            (\<forall>c \<in> set calls. snd c \<noteq> [] \<and> length (snd c) < FONT_MAX_CHARS) \<and>
            cap < sum_list (map (\<lambda>c. length (snd c)) calls) \<longrightarrow>
            (\<exists>i j. i < j \<and> j < length (reserved_offsets cap nc font calls) \<and>
               reserved_offsets cap nc font calls ! j < reserved_offsets cap nc font calls ! i)"
    using wrap_descends [of FONT_MAX_CHARS cap _ nc font] by blast
  from single run show ?thesis by (rule conjI)
qed

theorem ring_reservation_witness:
  "reserved_offset (fst (RenderTextInternal_line 40 4 True
       \<lparr>CharOffset = 32, ConstRingIdx = 3\<rparr> ''hello world'')) = Some 0 \<and>
   CharOffset (snd (RenderTextInternal_line 40 4 True
       \<lparr>CharOffset = 32, ConstRingIdx = 3\<rparr> ''hello world'')) = 16 \<and>
   reserved_offsets 40 4 \<lparr>CharOffset = 32, ConstRingIdx = 3\<rparr>
     [(True, ''hello world''), (True, ''second line''), (False, ''third line.''),
      (True, ''fourth line'')] = [0, 16, 0, 16] \<and>
   (\<exists>i j. i < j \<and> j < length (reserved_offsets 40 4 \<lparr>CharOffset = 32, ConstRingIdx = 3\<rparr>
         [(True, ''hello world''), (True, ''second line''), (False, ''third line.''),
          (True, ''fourth line'')]) \<and>
      reserved_offsets 40 4 \<lparr>CharOffset = 32, ConstRingIdx = 3\<rparr>
         [(True, ''hello world''), (True, ''second line''), (False, ''third line.''),
          (True, ''fourth line'')] ! j <
      reserved_offsets 40 4 \<lparr>CharOffset = 32, ConstRingIdx = 3\<rparr>
         [(True, ''hello world''), (True, ''second line''), (False, ''third line.''),
          (True, ''fourth line'')] ! i)"
proof -
  let ?font = "\<lparr>CharOffset = 32, ConstRingIdx = 3\<rparr>"
  let ?calls = "[(True, ''hello world''), (True, ''second line''), (False, ''third line.''),
      (True, ''fourth line'')]"
  have h1: "''hello world'' \<noteq> []" by simp
  have h2: "length ''hello world'' < (12::nat)" by simp
  have h3: "(12::nat) \<le> 40" by simp
  have h4: "2 * (12::nat) + 16 \<le> 40 \<and>
            (\<forall>c \<in> set ?calls. snd c \<noteq> [] \<and> length (snd c) < 12) \<and>
            40 < sum_list (map (\<lambda>c. length (snd c)) ?calls)"
    by simp
  have offs: "reserved_offsets 40 4 ?font ?calls = [0, 16, 0, 16]"
    by (simp add: reserved_offsets_def RenderTextInternal_line_def AlignUp_def sizeof_Vec4f_def
        map_filter_simps Let_def)
  note inst = ring_reservation [OF h1 h2 h3, of 4 True ?font]
  from inst have a: "reserved_offset (fst (RenderTextInternal_line 40 4 True ?font ''hello world'')) = Some 0"
    by simp
  from inst have b: "CharOffset (snd (RenderTextInternal_line 40 4 True ?font ''hello world'')) = 16"
    by (simp add: AlignUp_def sizeof_Vec4f_def)
  from inst h4 have c: "\<exists>i j. i < j \<and> j < length (reserved_offsets 40 4 ?font ?calls) \<and>
      reserved_offsets 40 4 ?font ?calls ! j < reserved_offsets 40 4 ?font ?calls ! i"
    by blast
  from a b offs c show ?thesis by simp
qed

subsection \<open>Facts about the shader cache\<close>

lemma cache_frame_refl: "cache_frame s s"
  by (simp add: cache_frame_def)

lemma cache_frame_trans: "cache_frame s s1 \<Longrightarrow> cache_frame s1 s2 \<Longrightarrow> cache_frame s s2"
  by (auto simp: cache_frame_def)

lemma cache_frame_AddRef: "cache_frame s (AddRef p s)"
  by (simp add: cache_frame_def AddRef_def)

lemma cache_frame_Release: "cache_frame s (Release p s)"
  by (simp add: cache_frame_def Release_def)

lemma cache_frame_SAFE_RELEASE: "cache_frame s (SAFE_RELEASE p s)"
  by (cases p) (simp_all add: SAFE_RELEASE_def cache_frame_refl cache_frame_Release)

lemma GetShaderBlob_hit:
  "m_ShaderCache s (shader_hash env source entry compileFlags profile) = Some (Some p) \<Longrightarrow>
   GetShaderBlob env source entry compileFlags profile b s = (Inr ([], Some p), AddRef p s)"
  by (simp add: GetShaderBlob_def)

lemma cache_frame_GetShaderBlob:
  "cache_frame s (snd (GetShaderBlob env source entry compileFlags profile b s))"
  by (auto simp: GetShaderBlob_def Let_def cache_frame_def AddRef_def Release_def SAFE_RELEASE_def
      new_blob_def split: option.splits prod.splits)

lemma GetShaderBlob_cached:
  assumes "m_CacheShaders s"
    and "GetShaderBlob env source entry compileFlags profile None s = (Inr (errors, Some p), s1)"
  shows "m_ShaderCache s1 (shader_hash env source entry compileFlags profile) = Some (Some p)"
  using assms
  by (auto simp: GetShaderBlob_def Let_def AddRef_def Release_def SAFE_RELEASE_def
      new_blob_def split: option.splits prod.splits if_splits)

text \<open>
  Claim C3, amended. While caching is enabled, if a call of \<^verbatim>\<open>GetShaderBlob\<close> (with
  \<^verbatim>\<open>*srcblob\<close> null on entry, as every caller has it) returns a bytecode blob, then a
  second call with the same source, entry point, profile and flags finds the hash in the
  cache, returns that same blob (so the same bytes) with one more reference and an empty
  diagnostics string, does not run the compiler, and leaves cache and dirty flag alone.
\<close>

theorem cache_hit_after_success:
  assumes "m_CacheShaders s"
    and "GetShaderBlob env source entry compileFlags profile None s = (Inr (errors, Some p), s1)"
  shows "m_ShaderCache s1 (shader_hash env source entry compileFlags profile) = Some (Some p) \<and>
         GetShaderBlob env source entry compileFlags profile b s1 = (Inr ([], Some p), AddRef p s1) \<and>
         compiler_calls (AddRef p s1) = compiler_calls s1 \<and>
         blob_refs (blobs (AddRef p s1) p) = blob_refs (blobs s1 p) + 1 \<and>
         blob_bytes (blobs (AddRef p s1) p) = blob_bytes (blobs s1 p) \<and>
         m_ShaderCache (AddRef p s1) = m_ShaderCache s1 \<and>
         m_ShaderCacheDirty (AddRef p s1) = m_ShaderCacheDirty s1"
proof -
  have cached: "m_ShaderCache s1 (shader_hash env source entry compileFlags profile) = Some (Some p)"
    using assms by (rule GetShaderBlob_cached)
  then have "GetShaderBlob env source entry compileFlags profile b s1 = (Inr ([], Some p), AddRef p s1)"
    by (rule GetShaderBlob_hit)
  with cached show ?thesis by (simp add: AddRef_def)
qed

theorem cache_hit_after_success_witness:
  "m_CacheShaders empty_cache \<and>
   fst (GetShaderBlob working_compiler ''float4 main() {'' ''main'' 0 ''ps_5_0'' None empty_cache) =
     Inr ([], Some 1) \<and>
   fst (GetShaderBlob working_compiler ''float4 main() {'' ''main'' 0 ''ps_5_0'' None
         (snd (GetShaderBlob working_compiler ''float4 main() {'' ''main'' 0 ''ps_5_0'' None empty_cache))) =
     Inr ([], Some 1)"
proof -
  let ?r = "GetShaderBlob working_compiler ''float4 main() {'' ''main'' 0 ''ps_5_0'' None empty_cache"
  have h1: "m_CacheShaders empty_cache" by (simp add: empty_cache_def)
  have first: "fst ?r = Inr ([], Some 1)"
    by (simp add: GetShaderBlob_def working_compiler_def failing_compiler_def empty_cache_def
        shader_hash_def new_blob_def AddRef_def Let_def)
  then have h2: "?r = (Inr ([], Some 1), snd ?r)"
    by (metis prod.collapse)
  from cache_hit_after_success [OF h1 h2, of None] h1 first show ?thesis by simp
qed

text \<open>
  Two calls with identical inputs while caching is enabled, with a compiler that rejects
  the source: the failure is not cached, so the second call compiles again and returns
  the diagnostics again.
\<close>

theorem cache_miss_after_failure:
  "m_CacheShaders empty_cache \<and>
   GetShaderBlob failing_compiler ''float4 main() {'' ''main'' 0 ''ps_5_0'' None empty_cache =
     (Inr (''error X3000: syntax error'', None),
      empty_cache\<lparr>compiler_calls := 1,
        warnings := [(''main'', ''error X3000: syntax error'')]\<rparr>) \<and>
   GetShaderBlob failing_compiler ''float4 main() {'' ''main'' 0 ''ps_5_0'' None
      (empty_cache\<lparr>compiler_calls := 1,
        warnings := [(''main'', ''error X3000: syntax error'')]\<rparr>) =
     (Inr (''error X3000: syntax error'', None),
      empty_cache\<lparr>compiler_calls := 2,
        warnings := [(''main'', ''error X3000: syntax error''),
                     (''main'', ''error X3000: syntax error'')]\<rparr>)"
  by (simp add: GetShaderBlob_def failing_compiler_def empty_cache_def
        shader_hash_def SAFE_RELEASE_def logerror_def Let_def)

text \<open>
  Claim C4, at the input where the code departs from it: a hash miss while caching is
  enabled, and a compiler that fails without a diagnostic blob. The test of the
  \<^verbatim>\<open>HRESULT\<close> sits inside the test for a diagnostic blob, so the call goes on to
  store the null bytecode pointer in the cache and calls \<^verbatim>\<open>AddRef\<close> through it.
\<close>

theorem silent_failure_crashes:
  "GetShaderBlob silent_failing_compiler ''float4 main() {'' ''main'' 0 ''ps_5_0'' None empty_cache =
     (Inl NullDereference,
      empty_cache\<lparr>compiler_calls := 1, m_ShaderCache := [5406 \<mapsto> None]\<rparr>)"
  by (simp add: GetShaderBlob_def silent_failing_compiler_def failing_compiler_def empty_cache_def
        shader_hash_def Let_def)

text \<open>
  With a diagnostic blob the failure is handled as the spec describes: the full text is
  returned, the cut text is logged, \<^verbatim>\<open>*srcblob\<close> is not written, nothing is cached.
\<close>

lemma reported_failure_not_cached:
  assumes "m_ShaderCache s (shader_hash env source entry compileFlags profile) = None"
    and "d3dcompiler_loaded env" and "has_D3DCompile env"
    and "D3DCompile env source entry profile
           (and compileFlags (not (D3DCOMPILE_NO_PRESHADER env))) = r"
    and "hr_failed r" and "errBlob r = Some e"
    and "GetShaderBlob env source entry compileFlags profile b s = (res, s1)"
  shows "res = Inr (e, b) \<and> m_ShaderCache s1 = m_ShaderCache s \<and>
         m_ShaderCacheDirty s1 = m_ShaderCacheDirty s \<and>
         warnings s1 = warnings s @ [(entry, logerror e)]"
  using assms
  by (auto simp: GetShaderBlob_def Let_def SAFE_RELEASE_def Release_def new_blob_def
      split: option.splits prod.splits)

lemma cache_frame_get_shaders: "cache_frame s (snd (get_shaders env shaders s))"
proof (induction shaders arbitrary: s)
  case Nil
  show ?case by (simp add: cache_frame_refl)
next
  case (Cons sh shaders)
  obtain source entry compileFlags profile where sh: "sh = (source, entry, compileFlags, profile)"
    by (cases sh)
  let ?r = "GetShaderBlob env source entry compileFlags profile None s"
  have one: "cache_frame s (snd ?r)" by (rule cache_frame_GetShaderBlob)
  have rest: "cache_frame (snd ?r) (snd (get_shaders env shaders (snd ?r)))" by (rule Cons.IH)
  show ?case
  proof (cases "fst ?r")
    case (Inl e)
    then have "get_shaders env (sh # shaders) s = (Inl e, snd ?r)"
      using sh by (cases ?r) simp
    with one show ?thesis by simp
  next
    case (Inr v)
    then have "snd (get_shaders env (sh # shaders) s) = snd (get_shaders env shaders (snd ?r))"
      using sh by (cases ?r; cases v) (auto split: prod.splits sum.splits)
    with one rest show ?thesis by (simp add: cache_frame_trans)
  qed
qed

lemma cache_frame_release_all: "cache_frame s (release_all ps s)"
proof (induction ps arbitrary: s)
  case Nil
  show ?case by (simp add: cache_frame_refl)
next
  case (Cons p ps)
  have "cache_frame s (SAFE_RELEASE p s)" by (rule cache_frame_SAFE_RELEASE)
  moreover have "cache_frame (SAFE_RELEASE p s) (release_all ps (SAFE_RELEASE p s))" by (rule Cons.IH)
  ultimately show ?case by (simp add: cache_frame_trans)
qed

lemma cache_frame_build_pipelines:
  "build_pipelines env shaders s = Inr s' \<Longrightarrow> cache_frame s s'"
proof -
  assume b: "build_pipelines env shaders s = Inr s'"
  obtain r s1 where g: "get_shaders env shaders s = (r, s1)" by (cases "get_shaders env shaders s")
  with b obtain got where r: "r = Inr got" and s': "s' = release_all got s1"
    by (auto simp: build_pipelines_def split: sum.splits if_splits)
  have "cache_frame s s1" using cache_frame_get_shaders [of s env shaders] g by simp
  moreover have "cache_frame s1 s'" unfolding s' by (rule cache_frame_release_all)
  ultimately show ?thesis by (rule cache_frame_trans)
qed

lemma new_blob_frame:
  "new_blob bytes s = (p, s1) \<Longrightarrow>
   disk_file s1 = disk_file s \<and> file_writes s1 = file_writes s \<and>
   compiler_calls s1 = compiler_calls s \<and> m_ShaderCacheDirty s1 = m_ShaderCacheDirty s"
  by (auto simp: new_blob_def)

lemma load_entries_frame:
  "disk_file (load_entries es s) = disk_file s \<and> file_writes (load_entries es s) = file_writes s \<and>
   compiler_calls (load_entries es s) = compiler_calls s \<and>
   m_ShaderCacheDirty (load_entries es s) = m_ShaderCacheDirty s"
proof (induction es arbitrary: s)
  case Nil
  show ?case by simp
next
  case (Cons e es)
  obtain hash bytes where e: "e = (hash, bytes)" by (cases e)
  obtain p s1 where n: "new_blob bytes s = (p, s1)" by (cases "new_blob bytes s")
  have step: "load_entries (e # es) s =
      load_entries es (s1\<lparr>m_ShaderCache := (m_ShaderCache s1)(hash \<mapsto> Some p)\<rparr>)"
    using e n by simp
  show ?case
    unfolding step using Cons.IH [of "s1\<lparr>m_ShaderCache := (m_ShaderCache s1)(hash \<mapsto> Some p)\<rparr>"]
      new_blob_frame [OF n] by simp
qed

lemma LoadShaderCache_frame:
  "LoadShaderCache magic version s = (ok, s1) \<Longrightarrow>
   disk_file s1 = disk_file s \<and> file_writes s1 = file_writes s \<and>
   compiler_calls s1 = compiler_calls s"
  by (auto simp: LoadShaderCache_def load_entries_frame split: option.splits if_splits)

lemma constructor_dirty:
  assumes "constructor env magic version displayhlsl fullhlsl wae s = Inr s1"
  shows "disk_file s1 = disk_file s \<and> file_writes s1 = file_writes s \<and>
         \<not> m_CacheShaders s1 \<and>
         compiler_calls s \<le> compiler_calls s1 \<and>
         (\<not> fst (LoadShaderCache magic version s) \<longrightarrow> m_ShaderCacheDirty s1) \<and>
         (fst (LoadShaderCache magic version s) \<and> compiler_calls s1 = compiler_calls s \<longrightarrow>
            \<not> m_ShaderCacheDirty s1)"
proof -
  obtain ok l where load: "LoadShaderCache magic version s = (ok, l)"
    by (cases "LoadShaderCache magic version s")
  let ?s3 = "l\<lparr>m_ShaderCacheDirty := \<not> ok, m_CacheShaders := True\<rparr>"
  have unfolded: "constructor env magic version displayhlsl fullhlsl wae s =
      (case build_pipelines env (display_shaders displayhlsl wae) ?s3 of
         Inl e \<Rightarrow> Inl e
       | Inr s4 \<Rightarrow>
           (case build_pipelines env (text_shaders fullhlsl wae) s4 of
              Inl e \<Rightarrow> Inl e
            | Inr s5 \<Rightarrow> Inr (s5\<lparr>m_CacheShaders := False\<rparr>)))"
    by (simp add: constructor_def load)
  obtain s4 where b1: "build_pipelines env (display_shaders displayhlsl wae) ?s3 = Inr s4"
    using assms unfolded by (cases "build_pipelines env (display_shaders displayhlsl wae) ?s3") simp_all
  obtain s5 where b2: "build_pipelines env (text_shaders fullhlsl wae) s4 = Inr s5"
    using assms unfolded b1 by (cases "build_pipelines env (text_shaders fullhlsl wae) s4") simp_all
  have s1: "s1 = s5\<lparr>m_CacheShaders := False\<rparr>"
    using assms unfolded b1 b2 by simp
  have f: "cache_frame ?s3 s5"
    using cache_frame_build_pipelines [OF b1] cache_frame_build_pipelines [OF b2]
    by (rule cache_frame_trans)
  from LoadShaderCache_frame [OF load] f s1 load show ?thesis
    by (auto simp: cache_frame_def)
qed

lemma release_entries_frame:
  "release_entries order s = (r, s') \<Longrightarrow>
   disk_file s' = disk_file s \<and> file_writes s' = file_writes s \<and> m_ShaderCache s' = m_ShaderCache s"
proof (induction order arbitrary: s)
  case Nil
  then show ?case by simp
next
  case (Cons h hs)
  show ?case
  proof (cases "m_ShaderCache s h")
    case None
    with Cons show ?thesis by simp
  next
    case (Some v)
    show ?thesis
    proof (cases v)
      case None
      with Some Cons.prems show ?thesis by simp
    next
      case (Some q)
      with \<open>m_ShaderCache s h = Some v\<close> Cons.prems
      have r: "release_entries hs (Release q s) = (r, s')" by simp
      from Cons.IH [OF r] show ?thesis by (simp add: Release_def)
    qed
  qed
qed

lemma release_entries_refs:
  "release_entries order s = (Inr (), s') \<Longrightarrow>
   blob_refs (blobs s' p) =
     blob_refs (blobs s p) - length (filter (\<lambda>h. m_ShaderCache s h = Some (Some p)) order)"
proof (induction order arbitrary: s)
  case Nil
  then show ?case by simp
next
  case (Cons h hs)
  show ?case
  proof (cases "m_ShaderCache s h")
    case None
    with Cons show ?thesis by simp
  next
    case (Some v)
    show ?thesis
    proof (cases v)
      case None
      with Some Cons.prems show ?thesis by simp
    next
      case (Some q)
      with \<open>m_ShaderCache s h = Some v\<close> Cons.prems
      have r: "release_entries hs (Release q s) = (Inr (), s')" by simp
      have same: "m_ShaderCache (Release q s) = m_ShaderCache s" by (simp add: Release_def)
      from Cons.IH [OF r] same Some \<open>m_ShaderCache s h = Some v\<close> show ?thesis
        by (auto simp: Release_def)
    qed
  qed
qed

lemma GetShaderBlob_compiled_dirty:
  assumes "m_CacheShaders s"
    and "GetShaderBlob env source entry compileFlags profile None s = (Inr (errors, Some p), s1)"
    and "compiler_calls s1 \<noteq> compiler_calls s"
  shows "m_ShaderCacheDirty s1"
  using assms
  by (auto simp: GetShaderBlob_def Let_def AddRef_def Release_def SAFE_RELEASE_def
      new_blob_def split: option.splits prod.splits if_splits)

lemma get_shaders_compiled_dirty:
  assumes "m_CacheShaders s" and "get_shaders env shaders s = (Inr got, s')"
    and "None \<notin> set got" and "compiler_calls s' \<noteq> compiler_calls s"
  shows "m_ShaderCacheDirty s'"
  using assms
proof (induction shaders arbitrary: s got)
  case Nil
  then show ?case by simp
next
  case (Cons sh shaders)
  obtain source entry compileFlags profile where sh: "sh = (source, entry, compileFlags, profile)"
    by (cases sh)
  from Cons.prems(2) sh obtain errors blob s1 rest where
    one: "GetShaderBlob env source entry compileFlags profile None s = (Inr (errors, blob), s1)" and
    more: "get_shaders env shaders s1 = (Inr rest, s')" and
    got: "got = blob # rest"
    by (auto split: prod.splits sum.splits)
  from Cons.prems(3) got obtain p where blob: "blob = Some p" and rest: "None \<notin> set rest"
    by (cases blob) auto
  have f1: "cache_frame s s1"
    using cache_frame_GetShaderBlob [of s env source entry compileFlags profile None] one by simp
  have f2: "cache_frame s1 s'"
    using cache_frame_get_shaders [of s1 env shaders] more by simp
  have on: "m_CacheShaders s1" using f1 Cons.prems(1) by (simp add: cache_frame_def)
  show ?case
  proof (cases "compiler_calls s1 = compiler_calls s")
    case True
    with Cons.prems(4) have "compiler_calls s' \<noteq> compiler_calls s1" by simp
    from Cons.IH [OF on more rest this] show ?thesis .
  next
    case False
    from GetShaderBlob_compiled_dirty [OF Cons.prems(1) one [unfolded blob] False]
    have "m_ShaderCacheDirty s1" .
    with f2 show ?thesis by (simp add: cache_frame_def)
  qed
qed

lemma release_all_same:
  "compiler_calls (release_all ps s) = compiler_calls s \<and>
   m_ShaderCacheDirty (release_all ps s) = m_ShaderCacheDirty s"
proof (induction ps arbitrary: s)
  case Nil
  show ?case by simp
next
  case (Cons p ps)
  have "compiler_calls (SAFE_RELEASE p s) = compiler_calls s \<and>
        m_ShaderCacheDirty (SAFE_RELEASE p s) = m_ShaderCacheDirty s"
    by (cases p) (simp_all add: SAFE_RELEASE_def Release_def)
  with Cons.IH [of "SAFE_RELEASE p s"] show ?case by simp
qed

lemma build_pipelines_compiled_dirty:
  assumes "m_CacheShaders s" and "build_pipelines env shaders s = Inr s'"
    and "compiler_calls s' \<noteq> compiler_calls s"
  shows "m_ShaderCacheDirty s'"
proof -
  obtain r s1 where g: "get_shaders env shaders s = (r, s1)" by (cases "get_shaders env shaders s")
  with assms(2) obtain got where r: "r = Inr got" and ok: "None \<notin> set got"
    and s': "s' = release_all got s1"
    by (auto simp: build_pipelines_def split: sum.splits if_splits)
  have c: "compiler_calls s1 \<noteq> compiler_calls s"
    using assms(3) unfolding s' by (simp add: release_all_same)
  have "m_ShaderCacheDirty s1"
    using get_shaders_compiled_dirty [OF assms(1) g [unfolded r] ok c] .
  then show ?thesis unfolding s' by (simp add: release_all_same)
qed

lemma constructor_compiled_dirty:
  assumes "constructor env magic version displayhlsl fullhlsl wae s = Inr s1"
    and "compiler_calls s1 \<noteq> compiler_calls s"
  shows "m_ShaderCacheDirty s1"
proof -
  obtain ok l where load: "LoadShaderCache magic version s = (ok, l)"
    by (cases "LoadShaderCache magic version s")
  let ?s3 = "l\<lparr>m_ShaderCacheDirty := \<not> ok, m_CacheShaders := True\<rparr>"
  have unfolded: "constructor env magic version displayhlsl fullhlsl wae s =
      (case build_pipelines env (display_shaders displayhlsl wae) ?s3 of
         Inl e \<Rightarrow> Inl e
       | Inr s4 \<Rightarrow>
           (case build_pipelines env (text_shaders fullhlsl wae) s4 of
              Inl e \<Rightarrow> Inl e
            | Inr s5 \<Rightarrow> Inr (s5\<lparr>m_CacheShaders := False\<rparr>)))"
    by (simp add: constructor_def load)
  obtain s4 where b1: "build_pipelines env (display_shaders displayhlsl wae) ?s3 = Inr s4"
    using assms unfolded by (cases "build_pipelines env (display_shaders displayhlsl wae) ?s3") simp_all
  obtain s5 where b2: "build_pipelines env (text_shaders fullhlsl wae) s4 = Inr s5"
    using assms unfolded b1 by (cases "build_pipelines env (text_shaders fullhlsl wae) s4") simp_all
  have s1: "s1 = s5\<lparr>m_CacheShaders := False\<rparr>"
    using assms unfolded b1 b2 by simp
  have f1: "cache_frame ?s3 s4" by (rule cache_frame_build_pipelines [OF b1])
  have f2: "cache_frame s4 s5" by (rule cache_frame_build_pipelines [OF b2])
  have on3: "m_CacheShaders ?s3" by simp
  have on4: "m_CacheShaders s4" using f1 by (simp add: cache_frame_def)
  have c3: "compiler_calls ?s3 = compiler_calls s"
    using LoadShaderCache_frame [OF load] by simp
  have "m_ShaderCacheDirty s5"
  proof (cases "compiler_calls s5 = compiler_calls s4")
    case True
    with assms(2) s1 c3 have "compiler_calls s4 \<noteq> compiler_calls ?s3" by simp
    from build_pipelines_compiled_dirty [OF on3 b1 this] have "m_ShaderCacheDirty s4" .
    with f2 show ?thesis by (simp add: cache_frame_def)
  next
    case False
    from build_pipelines_compiled_dirty [OF on4 b2 False] show ?thesis .
  qed
  then show ?thesis by (simp add: s1)
qed

text \<open>
  Claim C8. For a session that runs to its end (the constructor, any later calls of
  \<^verbatim>\<open>GetShaderBlob\<close>, the destructor): the cache file is written, once, exactly if the
  dirty flag is set at destruction. The flag is then as the constructor left it
  (caching is off afterwards), and it is set exactly if the load failed or the compiler
  ran during construction. A load that failed (no readable file, or a magic or version
  that does not match) leaves it set, so the file is written with the expected magic
  and version; a successful load after which the compiler never ran (only cache hits)
  leaves it clear; and with the flag clear the file is as it was and every cached entry
  has been released once.
\<close>

theorem cache_file_written_iff_dirty:
  assumes "constructor env magic version displayhlsl fullhlsl wae s0 = Inr s1"
    and "get_shaders env later s1 = (Inr got, s2)"
    and "destructor magic version order s2 = (Inr (), s3)"
  shows "(file_writes s3 = file_writes s0 + 1 \<longleftrightarrow> m_ShaderCacheDirty s2) \<and>
         (file_writes s3 = file_writes s0 \<longleftrightarrow> \<not> m_ShaderCacheDirty s2) \<and>
         (m_ShaderCacheDirty s2 \<longleftrightarrow> m_ShaderCacheDirty s1) \<and>
         (m_ShaderCacheDirty s2 \<longleftrightarrow>
            \<not> fst (LoadShaderCache magic version s0) \<or> compiler_calls s1 \<noteq> compiler_calls s0) \<and>
         (\<not> fst (LoadShaderCache magic version s0) \<longrightarrow>
            m_ShaderCacheDirty s2 \<and> file_writes s3 = file_writes s0 + 1 \<and>
            (\<exists>f. disk_file s3 = Some f \<and> file_magic f = magic \<and> file_version f = version)) \<and>
         (disk_file s0 = None \<or>
          (\<exists>f. disk_file s0 = Some f \<and> (file_magic f \<noteq> magic \<or> file_version f \<noteq> version)) \<longrightarrow>
            \<not> fst (LoadShaderCache magic version s0)) \<and>
         (fst (LoadShaderCache magic version s0) \<and> compiler_calls s2 = compiler_calls s0 \<longrightarrow>
            \<not> m_ShaderCacheDirty s2) \<and>
         (\<not> m_ShaderCacheDirty s2 \<longrightarrow>
            disk_file s3 = disk_file s0 \<and> file_writes s3 = file_writes s0 \<and>
            (\<forall>p. blob_refs (blobs s3 p) =
               blob_refs (blobs s2 p) -
               length (filter (\<lambda>h. m_ShaderCache s2 h = Some (Some p)) order)))"
proof -
  note c = constructor_dirty [OF assms(1)]
  have f: "cache_frame s1 s2"
    using cache_frame_get_shaders [of s1 env later] assms(2) by simp
  have off: "\<not> m_CacheShaders s1" using c by simp
  have same_dirty: "m_ShaderCacheDirty s2 \<longleftrightarrow> m_ShaderCacheDirty s1"
    using f off by (simp add: cache_frame_def)
  have calls: "compiler_calls s0 \<le> compiler_calls s1" "compiler_calls s1 \<le> compiler_calls s2"
    using c f by (simp_all add: cache_frame_def)
  have clean: "fst (LoadShaderCache magic version s0) \<and> compiler_calls s2 = compiler_calls s0 \<longrightarrow>
            \<not> m_ShaderCacheDirty s2"
    using c calls same_dirty by auto
  have failed: "\<not> fst (LoadShaderCache magic version s0) \<longrightarrow> m_ShaderCacheDirty s2"
    using c same_dirty by simp
  have dirtied: "m_ShaderCacheDirty s2 \<longleftrightarrow>
            \<not> fst (LoadShaderCache magic version s0) \<or> compiler_calls s1 \<noteq> compiler_calls s0"
    using c same_dirty constructor_compiled_dirty [OF assms(1)] by auto
  have load_fails: "disk_file s0 = None \<or>
          (\<exists>f. disk_file s0 = Some f \<and> (file_magic f \<noteq> magic \<or> file_version f \<noteq> version)) \<longrightarrow>
            \<not> fst (LoadShaderCache magic version s0)"
    by (auto simp: LoadShaderCache_def)
  show ?thesis
  proof (cases "m_ShaderCacheDirty s2")
    case True
    with assms(3) have s3: "s3 = SaveShaderCache magic version order s2"
      by (simp add: destructor_def)
    have w: "file_writes s3 = file_writes s0 + 1"
      using s3 f c by (simp add: SaveShaderCache_def cache_frame_def)
    have d: "\<exists>f. disk_file s3 = Some f \<and> file_magic f = magic \<and> file_version f = version"
      using s3 by (simp add: SaveShaderCache_def)
    from True w d load_fails same_dirty clean dirtied show ?thesis
      by simp
  next
    case False
    with assms(3) have r: "release_entries order s2 = (Inr (), s3)"
      by (simp add: destructor_def)
    have fr: "disk_file s3 = disk_file s2 \<and> file_writes s3 = file_writes s2"
      using release_entries_frame [OF r] by simp
    have w: "file_writes s3 = file_writes s0" "disk_file s3 = disk_file s0"
      using fr f c by (simp_all add: cache_frame_def)
    have refs: "\<forall>p. blob_refs (blobs s3 p) =
               blob_refs (blobs s2 p) -
               length (filter (\<lambda>h. m_ShaderCache s2 h = Some (Some p)) order)"
      using release_entries_refs [OF r] by simp
    from False w refs load_fails same_dirty failed dirtied show ?thesis
      by simp
  qed
qed

lemma cold_session:
  "\<exists>s1 s3. constructor working_compiler 7 2 ''d'' ''t'' 0 empty_cache = Inr s1 \<and>
     destructor 7 2 [5404, 5405, 5410, 5412] s1 = (Inr (), s3)"
  by (simp add: constructor_def LoadShaderCache_def build_pipelines_def display_shaders_def
      text_shaders_def GetShaderBlob_def working_compiler_def failing_compiler_def empty_cache_def
      shader_hash_def new_blob_def AddRef_def Release_def SAFE_RELEASE_def Let_def
      destructor_def)

lemma warm_session:
  "\<exists>s1 s3. constructor silent_failing_compiler 7 2 ''d'' ''t'' 0
       (empty_cache\<lparr>disk_file := Some cached_file\<rparr>) = Inr s1 \<and> compiler_calls s1 = 0 \<and>
     destructor 7 2 [5404, 5405, 5410, 5412] s1 = (Inr (), s3)"
  by (simp add: constructor_def LoadShaderCache_def build_pipelines_def display_shaders_def
      text_shaders_def GetShaderBlob_def silent_failing_compiler_def failing_compiler_def
      empty_cache_def cached_file_def
      shader_hash_def new_blob_def AddRef_def Release_def SAFE_RELEASE_def Let_def
      destructor_def)

theorem cache_file_written_iff_dirty_witness:
  "(\<exists>s1 s3. constructor working_compiler 7 2 ''d'' ''t'' 0 empty_cache = Inr s1 \<and>
      get_shaders working_compiler [] s1 = (Inr [], s1) \<and>
      destructor 7 2 [5404, 5405, 5410, 5412] s1 = (Inr (), s3) \<and>
      \<not> fst (LoadShaderCache 7 2 empty_cache) \<and>
      file_writes s3 = 1 \<and> disk_file s3 \<noteq> None) \<and>
   (\<exists>s1 s3. constructor silent_failing_compiler 7 2 ''d'' ''t'' 0
        (empty_cache\<lparr>disk_file := Some cached_file\<rparr>) = Inr s1 \<and>
      get_shaders silent_failing_compiler [] s1 = (Inr [], s1) \<and>
      destructor 7 2 [5404, 5405, 5410, 5412] s1 = (Inr (), s3) \<and>
      fst (LoadShaderCache 7 2 (empty_cache\<lparr>disk_file := Some cached_file\<rparr>)) \<and>
      compiler_calls s1 = 0 \<and>
      file_writes s3 = 0 \<and> disk_file s3 = Some cached_file)"
proof -
  obtain c1 c3 where
    cc: "constructor working_compiler 7 2 ''d'' ''t'' 0 empty_cache = Inr c1" and
    cd: "destructor 7 2 [5404, 5405, 5410, 5412] c1 = (Inr (), c3)"
    using cold_session by blast
  have cg: "get_shaders working_compiler [] c1 = (Inr [], c1)" by simp
  have cl: "\<not> fst (LoadShaderCache 7 2 empty_cache)"
    by (simp add: LoadShaderCache_def empty_cache_def)
  have cold: "file_writes c3 = 1 \<and> disk_file c3 \<noteq> None"
    using cache_file_written_iff_dirty [OF cc cg cd] cl by (auto simp: empty_cache_def)
  obtain w1 w3 where
    wc: "constructor silent_failing_compiler 7 2 ''d'' ''t'' 0
        (empty_cache\<lparr>disk_file := Some cached_file\<rparr>) = Inr w1" and
    wn: "compiler_calls w1 = 0" and
    wd: "destructor 7 2 [5404, 5405, 5410, 5412] w1 = (Inr (), w3)"
    using warm_session by blast
  have wg: "get_shaders silent_failing_compiler [] w1 = (Inr [], w1)" by simp
  have wl: "fst (LoadShaderCache 7 2 (empty_cache\<lparr>disk_file := Some cached_file\<rparr>))"
    by (simp add: LoadShaderCache_def empty_cache_def cached_file_def)
  have warm: "file_writes w3 = 0 \<and> disk_file w3 = Some cached_file"
    using cache_file_written_iff_dirty [OF wc wg wd] wl wn by (auto simp: empty_cache_def)
  from cc cg cd cl cold wc wg wd wl wn warm show ?thesis by blast
qed

subsection \<open>Facts about output windows\<close>

lemma MakeRTV_Some:
  "bb0 outw \<noteq> None \<Longrightarrow>
   MakeRTV multisampled ok outw s =
     Inr (if ok
          then (outw\<lparr>col := Some ((the (bb0 outw))\<lparr>res_addr := next_resource s,
                   res_Format := DXGI_FORMAT_R8G8B8A8_UNORM_SRGB,
                   res_Flags := D3D12_RESOURCE_FLAG_ALLOW_RENDER_TARGET\<rparr>)\<rparr>,
                s\<lparr>device_calls := device_calls s @
                    [CreateRenderTargetView (Some ((the (bb0 outw))\<lparr>res_addr := next_resource s,
                       res_Format := DXGI_FORMAT_R8G8B8A8_UNORM_SRGB,
                       res_Flags := D3D12_RESOURCE_FLAG_ALLOW_RENDER_TARGET\<rparr>)) (rtv outw)],
                  next_resource := next_resource s + 1\<rparr>)
          else (outw\<lparr>col := None\<rparr>, s))"
  by (auto simp: MakeRTV_def Let_def issue_def)

lemma MakeDSV_Some:
  "bb0 outw \<noteq> None \<Longrightarrow>
   MakeDSV ok outw s =
     Inr (if ok
          then (outw\<lparr>depth := Some ((the (bb0 outw))\<lparr>res_addr := next_resource s,
                   res_Format := DXGI_FORMAT_D24_UNORM_S8_UINT,
                   res_Flags := D3D12_RESOURCE_FLAG_ALLOW_DEPTH_STENCIL\<rparr>)\<rparr>,
                s\<lparr>device_calls := device_calls s @
                    [CreateDepthStencilView (Some ((the (bb0 outw))\<lparr>res_addr := next_resource s,
                       res_Format := DXGI_FORMAT_D24_UNORM_S8_UINT,
                       res_Flags := D3D12_RESOURCE_FLAG_ALLOW_DEPTH_STENCIL\<rparr>)) (dsv outw)],
                  next_resource := next_resource s + 1\<rparr>)
          else (outw\<lparr>depth := None\<rparr>, s))"
  by (auto simp: MakeDSV_def Let_def issue_def)

lemma resize_unknown:
  "wid = 0 \<or> m_OutputWindows s wid = None \<Longrightarrow> CheckResizeOutputWindow ans wid s = Inr (False, s)"
  by (auto simp: CheckResizeOutputWindow_def)

lemma resize_no_surface:
  assumes "m_OutputWindows s wid = Some outw" and "wnd outw = None \<or> swapchain outw = None"
  shows "CheckResizeOutputWindow ans wid s = Inr (False, s)"
  using assms by (auto simp: CheckResizeOutputWindow_def Let_def)

lemma resize_unchanged:
  assumes "wid \<noteq> 0" and "m_OutputWindows s wid = Some outw"
    and "wnd outw \<noteq> None" and "swapchain outw = Some sc"
    and "client_width ans = width outw" and "client_height ans = height outw"
  shows "CheckResizeOutputWindow ans wid s = Inr (False, s)"
  using assms
  by (simp add: CheckResizeOutputWindow_def Let_def client_width_def client_height_def)

lemma resize_minimised:
  assumes "wid \<noteq> 0" and "m_OutputWindows s wid = Some outw"
    and "wnd outw \<noteq> None" and "swapchain outw = Some sc"
    and "client_width ans \<noteq> width outw \<or> client_height ans \<noteq> height outw"
    and "\<not> (client_width ans > 0 \<and> client_height ans > 0)"
  shows "CheckResizeOutputWindow ans wid s =
     Inr (True, s\<lparr>device_calls := device_calls s @ [ExecuteLists, FlushLists (Some True)],
                  m_OutputWindows := (m_OutputWindows s)
                    (wid \<mapsto> outw\<lparr>width := client_width ans, height := client_height ans\<rparr>)\<rparr>)"
  using assms
  by (auto simp: CheckResizeOutputWindow_def Let_def client_width_def client_height_def
      issue_all_def store_def)

lemma resize_failed:
  assumes "wid \<noteq> 0" and "m_OutputWindows s wid = Some outw"
    and "wnd outw \<noteq> None" and "swapchain outw = Some sc"
    and "client_width ans \<noteq> width outw \<or> client_height ans \<noteq> height outw"
    and "client_width ans > 0 \<and> client_height ans > 0"
    and "\<not> swapchain_ok ans"
  shows "CheckResizeOutputWindow ans wid s =
     Inr (True, s\<lparr>device_calls := device_calls s @
                    [ExecuteLists, FlushLists (Some True),
                     ResizeBuffers (BufferCount sc) (client_width ans) (client_height ans)
                       (BufferFormat sc) (SwapFlags sc)],
                  m_OutputWindows := (m_OutputWindows s)
                    (wid \<mapsto> outw\<lparr>width := client_width ans, height := client_height ans,
                                    bb0 := None, bb1 := None\<rparr>)\<rparr>)"
  using assms
  by (auto simp: CheckResizeOutputWindow_def Let_def client_width_def client_height_def
      issue_all_def issue_def store_def)

lemma resize_done:
  assumes "wid \<noteq> 0" and "m_OutputWindows s wid = Some outw"
    and "wnd outw \<noteq> None" and "swapchain outw = Some sc"
    and "client_width ans \<noteq> width outw \<or> client_height ans \<noteq> height outw"
    and "client_width ans > 0 \<and> client_height ans > 0"
    and "swapchain_ok ans"
  shows "\<exists>s' outw'. CheckResizeOutputWindow ans wid s = Inr (True, s') \<and>
           (\<forall>other. other \<noteq> wid \<longrightarrow> m_OutputWindows s' other = m_OutputWindows s other) \<and>
           m_OutputWindows s' wid = Some outw' \<and>
           width outw' = client_width ans \<and> height outw' = client_height ans \<and>
           bbIdx outw' = 0 \<and>
           swapchain outw' = Some (sc\<lparr>BufferWidth := client_width ans,
                                      BufferHeight := client_height ans\<rparr>) \<and>
           bb0 outw' \<noteq> None \<and> bb1 outw' \<noteq> None \<and>
           wnd outw' = wnd outw \<and> rtv outw' = rtv outw \<and> dsv outw' = dsv outw \<and>
           (depth outw = None \<longrightarrow> depth outw' = None) \<and>
           (colour_ok ans \<longrightarrow>
              (\<exists>c. col outw' = Some c \<and> res_Width c = client_width ans \<and>
                    res_Height c = client_height ans)) \<and>
           m_OutputWindowID s' = m_OutputWindowID s \<and>
           m_CurrentOutputWindow s' = m_CurrentOutputWindow s \<and>
           take (length (device_calls s) + 3) (device_calls s') =
             device_calls s @
               [ExecuteLists, FlushLists (Some True),
                ResizeBuffers (BufferCount sc) (client_width ans) (client_height ans)
                  (BufferFormat sc) (SwapFlags sc)]"
proof -
  let ?w = "client_width ans" and ?h = "client_height ans"
  let ?sc = "sc\<lparr>BufferWidth := ?w, BufferHeight := ?h\<rparr>"
  let ?s2 = "s\<lparr>device_calls := device_calls s @
                    [ExecuteLists, FlushLists (Some True),
                     ResizeBuffers (BufferCount sc) ?w ?h (BufferFormat sc) (SwapFlags sc)]\<rparr>"
  let ?b0 = "\<lparr>res_addr = next_resource s, res_Width = ?w, res_Height = ?h,
       res_Format = BufferFormat sc, res_Flags = D3D12_RESOURCE_FLAG_NONE\<rparr>"
  let ?b1 = "\<lparr>res_addr = next_resource s + 1, res_Width = ?w, res_Height = ?h,
       res_Format = BufferFormat sc, res_Flags = D3D12_RESOURCE_FLAG_NONE\<rparr>"
  let ?s4 = "?s2\<lparr>next_resource := next_resource s + 2\<rparr>"
  let ?outw3 = "outw\<lparr>width := ?w, height := ?h, swapchain := Some ?sc,
                     bb0 := Some ?b0, bb1 := Some ?b1, bbIdx := 0\<rparr>"
  have unfolded: "CheckResizeOutputWindow ans wid s =
      (if depth outw \<noteq> None then
         (case MakeRTV True (colour_ok ans) ?outw3 ?s4 of
            Inl e \<Rightarrow> Inl e
          | Inr (outw4, s5) \<Rightarrow>
              (case MakeDSV (depth_ok ans) outw4 s5 of
                 Inl e \<Rightarrow> Inl e
               | Inr (outw5, s6) \<Rightarrow> Inr (True, store wid outw5 s6)))
       else
         (case MakeRTV False (colour_ok ans) ?outw3 ?s4 of
            Inl e \<Rightarrow> Inl e
          | Inr (outw4, s5) \<Rightarrow> Inr (True, store wid outw4 s5)))"
    using assms
    by (auto simp: CheckResizeOutputWindow_def Let_def client_width_def client_height_def
        issue_all_def issue_def GetBuffer_def)
  show ?thesis
    unfolding unfolded
    by (cases "colour_ok ans"; cases "depth_ok ans"; cases "depth outw = None")
       (simp_all add: MakeRTV_Some MakeDSV_Some store_def)
qed

lemma flipped_once_window:
  "m_OutputWindows flipped_once 1 =
     Some \<lparr>wnd = Some 1, width = 640, height = 480,
            swapchain = Some \<lparr>BufferCount = 2, BufferWidth = 640, BufferHeight = 480,
                               BufferFormat = DXGI_FORMAT_R8G8B8A8_UNORM, SwapFlags = 0\<rparr>,
            bb0 = Some \<lparr>res_addr = 1, res_Width = 640, res_Height = 480,
                         res_Format = DXGI_FORMAT_R8G8B8A8_UNORM,
                         res_Flags = D3D12_RESOURCE_FLAG_NONE\<rparr>,
            bb1 = Some \<lparr>res_addr = 2, res_Width = 640, res_Height = 480,
                         res_Format = DXGI_FORMAT_R8G8B8A8_UNORM,
                         res_Flags = D3D12_RESOURCE_FLAG_NONE\<rparr>,
            bbIdx = 1,
            col = Some \<lparr>res_addr = 3, res_Width = 640, res_Height = 480,
                         res_Format = DXGI_FORMAT_R8G8B8A8_UNORM_SRGB,
                         res_Flags = D3D12_RESOURCE_FLAG_ALLOW_RENDER_TARGET\<rparr>,
            depth = None, rtv = 4128, dsv = 8200\<rparr>"
  by (simp add: flipped_once_def MakeOutputWindow_def FlipOutputWindow_def MakeRTV_def
      GetBuffer_def example_device_def window_640x480_def new_manager_def issue_def
      issue_all_def store_def swap_states_def bb_def Let_def)

text \<open>
  Claim C6. Flipping a live output window (it has its swap chain) whose back buffer is
  there asks, in this order: a new list; the colour target from render target to copy
  source and the current back buffer from present to copy destination; the copy of the
  colour target into that back buffer; both transitions reversed; close, execute,
  flush; present. The table then holds the window with the index advanced modulo 2,
  which takes 0 to 1 and 1 to 0, computed from the index the copy used. If the first
  back buffer is null, nothing changes.
\<close>

theorem flip_copies_then_toggles:
  assumes "wid \<noteq> 0" and "m_OutputWindows s wid = Some outw" and "swapchain outw = Some sc"
  shows "(bb0 outw = None \<longrightarrow> FlipOutputWindow wid s = Inr s) \<and>
         (bb0 outw \<noteq> None \<longrightarrow>
            FlipOutputWindow wid s =
              Inr (s\<lparr>device_calls := device_calls s @
                       [GetNewList,
                        ResourceBarrier
                          [\<lparr>pResource = col outw, Subresource = 0,
                            StateBefore = D3D12_RESOURCE_STATE_RENDER_TARGET,
                            StateAfter = D3D12_RESOURCE_STATE_COPY_SOURCE\<rparr>,
                           \<lparr>pResource = bb outw (bbIdx outw), Subresource = 0,
                            StateBefore = D3D12_RESOURCE_STATE_PRESENT,
                            StateAfter = D3D12_RESOURCE_STATE_COPY_DEST\<rparr>],
                        CopyResource (bb outw (bbIdx outw)) (col outw),
                        ResourceBarrier
                          [\<lparr>pResource = col outw, Subresource = 0,
                            StateBefore = D3D12_RESOURCE_STATE_COPY_SOURCE,
                            StateAfter = D3D12_RESOURCE_STATE_RENDER_TARGET\<rparr>,
                           \<lparr>pResource = bb outw (bbIdx outw), Subresource = 0,
                            StateBefore = D3D12_RESOURCE_STATE_COPY_DEST,
                            StateAfter = D3D12_RESOURCE_STATE_PRESENT\<rparr>],
                        Close, ExecuteLists, FlushLists None, Present sc],
                     m_OutputWindows := (m_OutputWindows s)
                       (wid \<mapsto> outw\<lparr>bbIdx := (bbIdx outw + 1) mod 2\<rparr>)\<rparr>) \<and>
            (bbIdx outw = 0 \<longrightarrow> (bbIdx outw + 1) mod 2 = 1) \<and>
            (bbIdx outw = 1 \<longrightarrow> (bbIdx outw + 1) mod 2 = 0))"
  using assms
  by (auto simp: FlipOutputWindow_def Let_def issue_def issue_all_def store_def swap_states_def)

theorem flip_copies_then_toggles_witness:
  "(1 :: 64 word) \<noteq> 0 \<and>
   bbIdx (the (m_OutputWindows flipped_once 1)) = 1 \<and>
   (\<exists>s'. FlipOutputWindow 1 flipped_once = Inr s' \<and>
      bbIdx (the (m_OutputWindows s' 1)) = 0 \<and>
      drop (length (device_calls flipped_once) + 2) (device_calls s') =
        [CopyResource (bb1 (the (m_OutputWindows flipped_once 1)))
                      (col (the (m_OutputWindows flipped_once 1))),
         ResourceBarrier
           [\<lparr>pResource = col (the (m_OutputWindows flipped_once 1)), Subresource = 0,
             StateBefore = D3D12_RESOURCE_STATE_COPY_SOURCE,
             StateAfter = D3D12_RESOURCE_STATE_RENDER_TARGET\<rparr>,
            \<lparr>pResource = bb1 (the (m_OutputWindows flipped_once 1)), Subresource = 0,
             StateBefore = D3D12_RESOURCE_STATE_COPY_DEST,
             StateAfter = D3D12_RESOURCE_STATE_PRESENT\<rparr>],
         Close, ExecuteLists, FlushLists None,
         Present \<lparr>BufferCount = 2, BufferWidth = 640, BufferHeight = 480,
                  BufferFormat = DXGI_FORMAT_R8G8B8A8_UNORM, SwapFlags = 0\<rparr>])"
proof -
  have h1: "(1 :: 64 word) \<noteq> 0" by simp
  note h2 = flipped_once_window
  have h3: "swapchain \<lparr>wnd = Some 1, width = 640, height = 480,
            swapchain = Some \<lparr>BufferCount = 2, BufferWidth = 640, BufferHeight = 480,
                               BufferFormat = DXGI_FORMAT_R8G8B8A8_UNORM, SwapFlags = 0\<rparr>,
            bb0 = Some \<lparr>res_addr = 1, res_Width = 640, res_Height = 480,
                         res_Format = DXGI_FORMAT_R8G8B8A8_UNORM,
                         res_Flags = D3D12_RESOURCE_FLAG_NONE\<rparr>,
            bb1 = Some \<lparr>res_addr = 2, res_Width = 640, res_Height = 480,
                         res_Format = DXGI_FORMAT_R8G8B8A8_UNORM,
                         res_Flags = D3D12_RESOURCE_FLAG_NONE\<rparr>,
            bbIdx = 1,
            col = Some \<lparr>res_addr = 3, res_Width = 640, res_Height = 480,
                         res_Format = DXGI_FORMAT_R8G8B8A8_UNORM_SRGB,
                         res_Flags = D3D12_RESOURCE_FLAG_ALLOW_RENDER_TARGET\<rparr>,
            depth = None, rtv = 4128, dsv = 8200\<rparr> =
       Some \<lparr>BufferCount = 2, BufferWidth = 640, BufferHeight = 480,
              BufferFormat = DXGI_FORMAT_R8G8B8A8_UNORM, SwapFlags = 0\<rparr>"
    by simp
  from flip_copies_then_toggles [OF h1 h2 h3] show ?thesis
    by (simp add: flipped_once_window bb_def)
qed

text \<open>
  Claim C5, amended. For a live output window with a window handle and a swap chain,
  the check returns; afterwards the stored width and height are those of the client
  area, and the result is true exactly if they differ from the stored ones. If nothing
  changed, nothing is done. If the size changed but is not positive in both dimensions,
  the lists are executed and flushed, the new size is stored, and nothing else happens.
  If it changed and is positive, the swap chain is asked to resize to it with its own
  buffer count, format and flags; if that succeeds the chain has the new size, both back
  buffers are there and the index is 0; if it fails the back buffers are null and the
  index is what it was.
\<close>

theorem resize_tracks_client_area:
  assumes "wid \<noteq> 0" and "m_OutputWindows s wid = Some outw"
    and "wnd outw \<noteq> None" and "swapchain outw = Some sc"
  shows "\<exists>resized s' outw'.
           CheckResizeOutputWindow ans wid s = Inr (resized, s') \<and>
           m_OutputWindows s' wid = Some outw' \<and>
           width outw' = client_width ans \<and> height outw' = client_height ans \<and>
           (resized \<longleftrightarrow> client_width ans \<noteq> width outw \<or> client_height ans \<noteq> height outw) \<and>
           (\<not> resized \<longrightarrow> s' = s) \<and>
           (resized \<and> \<not> (0 < client_width ans \<and> 0 < client_height ans) \<longrightarrow>
              s' = s\<lparr>device_calls := device_calls s @ [ExecuteLists, FlushLists (Some True)],
                     m_OutputWindows := (m_OutputWindows s)
                       (wid \<mapsto> outw\<lparr>width := client_width ans, height := client_height ans\<rparr>)\<rparr>) \<and>
           (resized \<and> 0 < client_width ans \<and> 0 < client_height ans \<longrightarrow>
              take (length (device_calls s) + 3) (device_calls s') =
                device_calls s @
                  [ExecuteLists, FlushLists (Some True),
                   ResizeBuffers (BufferCount sc) (client_width ans) (client_height ans)
                     (BufferFormat sc) (SwapFlags sc)] \<and>
              (swapchain_ok ans \<longrightarrow>
                 bbIdx outw' = 0 \<and>
                 swapchain outw' = Some (sc\<lparr>BufferWidth := client_width ans,
                                            BufferHeight := client_height ans\<rparr>) \<and>
                 bb0 outw' \<noteq> None \<and> bb1 outw' \<noteq> None) \<and>
              (\<not> swapchain_ok ans \<longrightarrow>
                 bbIdx outw' = bbIdx outw \<and> swapchain outw' = Some sc \<and>
                 bb0 outw' = None \<and> bb1 outw' = None))"
proof (cases "client_width ans \<noteq> width outw \<or> client_height ans \<noteq> height outw")
  case False
  then have "CheckResizeOutputWindow ans wid s = Inr (False, s)"
    using assms by (simp add: resize_unchanged)
  with False assms(2) show ?thesis
    by (intro exI [of _ False] exI [of _ s] exI [of _ outw]) simp
next
  case changed: True
  show ?thesis
  proof (cases "0 < client_width ans \<and> 0 < client_height ans")
    case False
    let ?s' = "s\<lparr>device_calls := device_calls s @ [ExecuteLists, FlushLists (Some True)],
                     m_OutputWindows := (m_OutputWindows s)
                       (wid \<mapsto> outw\<lparr>width := client_width ans, height := client_height ans\<rparr>)\<rparr>"
    from resize_minimised [OF assms changed False] changed False show ?thesis
      by (intro exI [of _ True] exI [of _ ?s']
          exI [of _ "outw\<lparr>width := client_width ans, height := client_height ans\<rparr>"]) simp
  next
    case positive: True
    show ?thesis
    proof (cases "swapchain_ok ans")
      case False
      let ?outw' = "outw\<lparr>width := client_width ans, height := client_height ans,
                                    bb0 := None, bb1 := None\<rparr>"
      let ?s' = "s\<lparr>device_calls := device_calls s @
                    [ExecuteLists, FlushLists (Some True),
                     ResizeBuffers (BufferCount sc) (client_width ans) (client_height ans)
                       (BufferFormat sc) (SwapFlags sc)],
                  m_OutputWindows := (m_OutputWindows s)(wid \<mapsto> ?outw')\<rparr>"
      from resize_failed [OF assms changed positive False] changed positive False assms(4)
      show ?thesis
        by (intro exI [of _ True] exI [of _ ?s'] exI [of _ ?outw']) simp
    next
      case True
      from resize_done [OF assms changed positive True] obtain s' outw' where
        r: "CheckResizeOutputWindow ans wid s = Inr (True, s')" and
        w: "m_OutputWindows s' wid = Some outw'" and
        facts: "width outw' = client_width ans" "height outw' = client_height ans"
          "bbIdx outw' = 0"
          "swapchain outw' = Some (sc\<lparr>BufferWidth := client_width ans,
                                      BufferHeight := client_height ans\<rparr>)"
          "bb0 outw' \<noteq> None" "bb1 outw' \<noteq> None" and
        trace: "take (length (device_calls s) + 3) (device_calls s') =
             device_calls s @
               [ExecuteLists, FlushLists (Some True),
                ResizeBuffers (BufferCount sc) (client_width ans) (client_height ans)
                  (BufferFormat sc) (SwapFlags sc)]"
        by blast
      have "CheckResizeOutputWindow ans wid s = Inr (True, s') \<and>
           m_OutputWindows s' wid = Some outw' \<and>
           width outw' = client_width ans \<and> height outw' = client_height ans \<and>
           (True \<longleftrightarrow> client_width ans \<noteq> width outw \<or> client_height ans \<noteq> height outw) \<and>
           (\<not> True \<longrightarrow> s' = s) \<and>
           (True \<and> \<not> (0 < client_width ans \<and> 0 < client_height ans) \<longrightarrow>
              s' = s\<lparr>device_calls := device_calls s @ [ExecuteLists, FlushLists (Some True)],
                     m_OutputWindows := (m_OutputWindows s)
                       (wid \<mapsto> outw\<lparr>width := client_width ans, height := client_height ans\<rparr>)\<rparr>) \<and>
           (True \<and> 0 < client_width ans \<and> 0 < client_height ans \<longrightarrow>
              take (length (device_calls s) + 3) (device_calls s') =
                device_calls s @
                  [ExecuteLists, FlushLists (Some True),
                   ResizeBuffers (BufferCount sc) (client_width ans) (client_height ans)
                     (BufferFormat sc) (SwapFlags sc)] \<and>
              (swapchain_ok ans \<longrightarrow>
                 bbIdx outw' = 0 \<and>
                 swapchain outw' = Some (sc\<lparr>BufferWidth := client_width ans,
                                            BufferHeight := client_height ans\<rparr>) \<and>
                 bb0 outw' \<noteq> None \<and> bb1 outw' \<noteq> None) \<and>
              (\<not> swapchain_ok ans \<longrightarrow>
                 bbIdx outw' = bbIdx outw \<and> swapchain outw' = Some sc \<and>
                 bb0 outw' = None \<and> bb1 outw' = None))"
        using r w facts trace changed positive True by simp
      then show ?thesis
        by (intro exI [of _ True] exI [of _ s'] exI [of _ outw'])
    qed
  qed
qed

theorem resize_tracks_client_area_witness:
  "\<exists>s' outw'.
     CheckResizeOutputWindow window_800x600 1 flipped_once = Inr (True, s') \<and>
     m_OutputWindows s' 1 = Some outw' \<and>
     width outw' = 800 \<and> height outw' = 600 \<and> bbIdx outw' = 0 \<and>
     swapchain outw' = Some \<lparr>BufferCount = 2, BufferWidth = 800, BufferHeight = 600,
                               BufferFormat = DXGI_FORMAT_R8G8B8A8_UNORM, SwapFlags = 0\<rparr>"
proof -
  have h1: "(1 :: 64 word) \<noteq> 0" by simp
  note h2 = flipped_once_window
  have cw: "client_width window_800x600 = 800" "client_height window_800x600 = 600"
    "swapchain_ok window_800x600"
    by (simp_all add: client_width_def client_height_def window_800x600_def)
  from resize_tracks_client_area [OF h1 h2, of _ window_800x600]
  obtain resized s' outw' where
    r: "CheckResizeOutputWindow window_800x600 1 flipped_once = Inr (resized, s')" and
    w: "m_OutputWindows s' 1 = Some outw'" and
    d: "width outw' = client_width window_800x600" "height outw' = client_height window_800x600" and
    i: "resized \<longleftrightarrow> client_width window_800x600 \<noteq> 640 \<or> client_height window_800x600 \<noteq> 480" and
    z: "resized \<and> 0 < client_width window_800x600 \<and> 0 < client_height window_800x600 \<longrightarrow>
        (swapchain_ok window_800x600 \<longrightarrow>
           bbIdx outw' = 0 \<and>
           swapchain outw' = Some \<lparr>BufferCount = 2, BufferWidth = client_width window_800x600,
                               BufferHeight = client_height window_800x600,
                               BufferFormat = DXGI_FORMAT_R8G8B8A8_UNORM, SwapFlags = 0\<rparr>)"
    by auto
  from i cw have "resized" by simp
  with r w d z cw show ?thesis by simp
qed

text \<open>
  The window that was flipped once (index 1), its client area grown to 800 by 600, and a
  swap chain that refuses to resize: the check returns true and the index is still 1.
\<close>

theorem failed_resize_keeps_index:
  "m_OutputWindows flipped_once 1 \<noteq> None \<and>
   wnd (the (m_OutputWindows flipped_once 1)) \<noteq> None \<and>
   swapchain (the (m_OutputWindows flipped_once 1)) \<noteq> None \<and>
   width (the (m_OutputWindows flipped_once 1)) = 640 \<and>
   client_width (window_800x600\<lparr>swapchain_ok := False\<rparr>) = 800 \<and>
   client_height (window_800x600\<lparr>swapchain_ok := False\<rparr>) = 600 \<and>
   \<not> isl (CheckResizeOutputWindow (window_800x600\<lparr>swapchain_ok := False\<rparr>) 1 flipped_once) \<and>
   fst (projr (CheckResizeOutputWindow (window_800x600\<lparr>swapchain_ok := False\<rparr>) 1 flipped_once)) \<and>
   bbIdx (the (m_OutputWindows
      (snd (projr (CheckResizeOutputWindow (window_800x600\<lparr>swapchain_ok := False\<rparr>) 1 flipped_once)))
      1)) = 1"
proof -
  let ?ans = "window_800x600\<lparr>swapchain_ok := False\<rparr>"
  have cw: "client_width ?ans = 800" "client_height ?ans = 600" "\<not> swapchain_ok ?ans"
    by (simp_all add: client_width_def client_height_def window_800x600_def)
  have h1: "(1 :: 64 word) \<noteq> 0" by simp
  have r: "CheckResizeOutputWindow ?ans 1 flipped_once =
     Inr (True, flipped_once\<lparr>device_calls := device_calls flipped_once @
                    [ExecuteLists, FlushLists (Some True),
                     ResizeBuffers 2 800 600 DXGI_FORMAT_R8G8B8A8_UNORM 0],
                  m_OutputWindows := (m_OutputWindows flipped_once)
                    (1 \<mapsto> (the (m_OutputWindows flipped_once 1))\<lparr>width := 800, height := 600,
                                    bb0 := None, bb1 := None\<rparr>)\<rparr>)"
    using resize_failed [OF h1 flipped_once_window, of _ ?ans] cw
    by (simp add: flipped_once_window)
  show ?thesis
    unfolding r using cw by (simp add: flipped_once_window)
qed

subsection \<open>Facts about runs of the output-window operations\<close>

lemma MakeOutputWindow_fail:
  "\<not> swapchain_ok ans \<Longrightarrow> MakeOutputWindow dev ans data want_depth s = Inr (0, s)"
  by (simp add: MakeOutputWindow_def Let_def)

lemma MakeOutputWindow_ok:
  assumes "swapchain_ok ans"
  shows "\<exists>s' outw. MakeOutputWindow dev ans data want_depth s = Inr (m_OutputWindowID s, s') \<and>
           m_OutputWindowID s' = m_OutputWindowID s + 1 \<and>
           (\<forall>other. other \<noteq> m_OutputWindowID s \<longrightarrow>
              m_OutputWindows s' other = m_OutputWindows s other) \<and>
           m_OutputWindows s' (m_OutputWindowID s) = Some outw \<and>
           rtv outw = rtvHeapStart dev + m_OutputWindowID s * ucast (rtvIncrement dev) \<and>
           dsv outw = dsvHeapStart dev + m_OutputWindowID s * ucast (dsvIncrement dev) \<and>
           swapchain outw \<noteq> None \<and> bbIdx outw = 0 \<and>
           width outw = client_width ans \<and> height outw = client_height ans"
  using assms
  by (cases "colour_ok ans"; cases "depth_ok ans"; cases want_depth)
     (simp_all add: MakeOutputWindow_def Let_def GetBuffer_def MakeRTV_Some MakeDSV_Some issue_def
        client_width_def client_height_def)

lemma store_frame:
  assumes w: "m_OutputWindows s wid = Some outw"
    and other: "\<forall>other. other \<noteq> wid \<longrightarrow> m_OutputWindows s' other = m_OutputWindows s other"
    and w': "m_OutputWindows s' wid = Some outw'"
    and same: "rtv outw' = rtv outw" "dsv outw' = dsv outw"
    and sc: "swapchain outw \<noteq> None \<longrightarrow> swapchain outw' \<noteq> None"
    and idx: "bbIdx outw < 2 \<longrightarrow> bbIdx outw' < 2"
  shows "dom (m_OutputWindows s') = dom (m_OutputWindows s) \<and>
         (window_inv dev s \<longrightarrow> window_inv dev s')"
proof
  show "dom (m_OutputWindows s') = dom (m_OutputWindows s)"
  proof (rule set_eqI)
    fix k show "k \<in> dom (m_OutputWindows s') \<longleftrightarrow> k \<in> dom (m_OutputWindows s)"
      using other w w' by (cases "k = wid") auto
  qed
  show "window_inv dev s \<longrightarrow> window_inv dev s'"
    unfolding window_inv_def
  proof (intro impI allI)
    fix k o'
    assume inv: "\<forall>wid outw. m_OutputWindows s wid = Some outw \<longrightarrow>
        rtv outw = rtvHeapStart dev + wid * ucast (rtvIncrement dev) \<and>
        dsv outw = dsvHeapStart dev + wid * ucast (dsvIncrement dev) \<and>
        swapchain outw \<noteq> None \<and> bbIdx outw < 2"
      and k: "m_OutputWindows s' k = Some o'"
    show "rtv o' = rtvHeapStart dev + k * ucast (rtvIncrement dev) \<and>
        dsv o' = dsvHeapStart dev + k * ucast (dsvIncrement dev) \<and>
        swapchain o' \<noteq> None \<and> bbIdx o' < 2"
    proof (cases "k = wid")
      case True
      with k w' have o': "o' = outw'" by simp
      from inv w have "rtv outw = rtvHeapStart dev + wid * ucast (rtvIncrement dev) \<and>
        dsv outw = dsvHeapStart dev + wid * ucast (dsvIncrement dev) \<and>
        swapchain outw \<noteq> None \<and> bbIdx outw < 2" by blast
      with same sc idx True o' show ?thesis by simp
    next
      case False
      with other k have "m_OutputWindows s k = Some o'" by simp
      with inv show ?thesis by blast
    qed
  qed
qed

lemma resize_frame:
  assumes "CheckResizeOutputWindow ans wid s = Inr (r, s')"
  shows "m_OutputWindowID s' = m_OutputWindowID s \<and>
         dom (m_OutputWindows s') = dom (m_OutputWindows s) \<and>
         (window_inv dev s \<longrightarrow> window_inv dev s')"
proof (cases "wid = 0 \<or> m_OutputWindows s wid = None")
  case True
  with assms resize_unknown [OF True, of ans] show ?thesis by simp
next
  case False
  then obtain outw where wid: "wid \<noteq> 0" and w: "m_OutputWindows s wid = Some outw" by auto
  show ?thesis
  proof (cases "wnd outw = None \<or> swapchain outw = None")
    case True
    with assms resize_no_surface [OF w True, of ans] show ?thesis by simp
  next
    case False
    then obtain sc where wn: "wnd outw \<noteq> None" and sc: "swapchain outw = Some sc" by auto
    show ?thesis
    proof (cases "client_width ans \<noteq> width outw \<or> client_height ans \<noteq> height outw")
      case False
      with assms resize_unchanged [OF wid w wn sc, of ans] show ?thesis by simp
    next
      case changed: True
      show ?thesis
      proof (cases "0 < client_width ans \<and> 0 < client_height ans")
        case False
        let ?outw' = "outw\<lparr>width := client_width ans, height := client_height ans\<rparr>"
        from assms resize_minimised [OF wid w wn sc changed False]
        have s': "s' = s\<lparr>device_calls := device_calls s @ [ExecuteLists, FlushLists (Some True)],
                  m_OutputWindows := (m_OutputWindows s)(wid \<mapsto> ?outw')\<rparr>"
          by simp
        have "dom (m_OutputWindows s') = dom (m_OutputWindows s) \<and>
              (window_inv dev s \<longrightarrow> window_inv dev s')"
          by (rule store_frame [OF w, where outw' = ?outw']) (simp_all add: s' sc)
        with s' show ?thesis by simp
      next
        case positive: True
        show ?thesis
        proof (cases "swapchain_ok ans")
          case False
          let ?outw' = "outw\<lparr>width := client_width ans, height := client_height ans,
                                    bb0 := None, bb1 := None\<rparr>"
          from assms resize_failed [OF wid w wn sc changed positive False]
          have s': "s' = s\<lparr>device_calls := device_calls s @
                    [ExecuteLists, FlushLists (Some True),
                     ResizeBuffers (BufferCount sc) (client_width ans) (client_height ans)
                       (BufferFormat sc) (SwapFlags sc)],
                  m_OutputWindows := (m_OutputWindows s)(wid \<mapsto> ?outw')\<rparr>"
            by simp
          have "dom (m_OutputWindows s') = dom (m_OutputWindows s) \<and>
                (window_inv dev s \<longrightarrow> window_inv dev s')"
            by (rule store_frame [OF w, where outw' = ?outw']) (simp_all add: s' sc)
          with s' show ?thesis by simp
        next
          case True
          from resize_done [OF wid w wn sc changed positive True] assms obtain outw' where
            other: "\<forall>other. other \<noteq> wid \<longrightarrow> m_OutputWindows s' other = m_OutputWindows s other" and
            w': "m_OutputWindows s' wid = Some outw'" and
            facts: "bbIdx outw' = 0" "swapchain outw' \<noteq> None" "rtv outw' = rtv outw"
              "dsv outw' = dsv outw" and
            c: "m_OutputWindowID s' = m_OutputWindowID s"
            by auto
          have "dom (m_OutputWindows s') = dom (m_OutputWindows s) \<and>
                (window_inv dev s \<longrightarrow> window_inv dev s')"
            by (rule store_frame [OF w other w']) (simp_all add: facts)
          with c show ?thesis by simp
        qed
      qed
    qed
  qed
qed

lemma flip_frame:
  assumes "FlipOutputWindow wid s = Inr s'"
  shows "m_OutputWindowID s' = m_OutputWindowID s \<and>
         dom (m_OutputWindows s') = dom (m_OutputWindows s) \<and>
         (window_inv dev s \<longrightarrow> window_inv dev s')"
proof (cases "wid = 0 \<or> m_OutputWindows s wid = None")
  case True
  with assms show ?thesis by (auto simp: FlipOutputWindow_def)
next
  case False
  then obtain outw where wid: "wid \<noteq> 0" and w: "m_OutputWindows s wid = Some outw" by auto
  show ?thesis
  proof (cases "bb0 outw = None")
    case True
    with assms wid w show ?thesis by (simp add: FlipOutputWindow_def)
  next
    case False
    let ?outw' = "outw\<lparr>bbIdx := (bbIdx outw + 1) mod 2\<rparr>"
    from assms wid w False obtain calls where
      s': "s' = s\<lparr>device_calls := calls,
                  m_OutputWindows := (m_OutputWindows s)(wid \<mapsto> ?outw')\<rparr>"
      by (auto simp: FlipOutputWindow_def Let_def store_def issue_def issue_all_def
          split: option.splits)
    have "dom (m_OutputWindows s') = dom (m_OutputWindows s) \<and>
          (window_inv dev s \<longrightarrow> window_inv dev s')"
      by (rule store_frame [OF w, where outw' = ?outw']) (simp_all add: s')
    with s' show ?thesis by simp
  qed
qed


lemma step_effect:
  assumes st: "step dev op s = Inr (a, s')" and nz: "m_OutputWindowID s \<noteq> 0"
    and inv: "window_inv dev s"
  shows "window_inv dev s' \<and>
         (drawn a = None \<longrightarrow>
            m_OutputWindowID s' = m_OutputWindowID s \<and>
            dom (m_OutputWindows s') \<subseteq> dom (m_OutputWindows s)) \<and>
         (\<forall>v. drawn a = Some v \<longrightarrow>
            v = m_OutputWindowID s \<and> m_OutputWindowID s' = v + 1 \<and>
            ((a = Handle v \<and> dom (m_OutputWindows s') \<subseteq> insert v (dom (m_OutputWindows s))) \<or>
             (a = Slot v (rtvHeapStart dev + v * ucast (rtvIncrement dev)) \<and>
              dom (m_OutputWindows s') \<subseteq> dom (m_OutputWindows s))))"
proof (cases op)
  case (Make ans data want_depth)
  show ?thesis
  proof (cases "swapchain_ok ans")
    case False
    with st Make inv show ?thesis by (simp add: MakeOutputWindow_fail)
  next
    case True
    from MakeOutputWindow_ok [OF True, of dev data want_depth s] obtain s1 outw where
      m: "MakeOutputWindow dev ans data want_depth s = Inr (m_OutputWindowID s, s1)" and
      c: "m_OutputWindowID s1 = m_OutputWindowID s + 1" and
      other: "\<forall>other. other \<noteq> m_OutputWindowID s \<longrightarrow>
              m_OutputWindows s1 other = m_OutputWindows s other" and
      w: "m_OutputWindows s1 (m_OutputWindowID s) = Some outw" and
      facts: "rtv outw = rtvHeapStart dev + m_OutputWindowID s * ucast (rtvIncrement dev)"
        "dsv outw = dsvHeapStart dev + m_OutputWindowID s * ucast (dsvIncrement dev)"
        "swapchain outw \<noteq> None" "bbIdx outw = 0"
      by blast
    from st Make m nz have a: "a = Handle (m_OutputWindowID s)" and s': "s' = s1" by simp_all
    have d: "dom (m_OutputWindows s1) \<subseteq> insert (m_OutputWindowID s) (dom (m_OutputWindows s))"
    proof
      fix k assume "k \<in> dom (m_OutputWindows s1)"
      with other show "k \<in> insert (m_OutputWindowID s) (dom (m_OutputWindows s))"
        by (cases "k = m_OutputWindowID s") auto
    qed
    have i: "window_inv dev s1"
      unfolding window_inv_def
    proof (intro allI impI)
      fix k o'
      assume k: "m_OutputWindows s1 k = Some o'"
      show "rtv o' = rtvHeapStart dev + k * ucast (rtvIncrement dev) \<and>
        dsv o' = dsvHeapStart dev + k * ucast (dsvIncrement dev) \<and>
        swapchain o' \<noteq> None \<and> bbIdx o' < 2"
      proof (cases "k = m_OutputWindowID s")
        case True
        with k w have "o' = outw" by simp
        with facts True show ?thesis by simp
      next
        case False
        with other k have "m_OutputWindows s k = Some o'" by simp
        with inv show ?thesis unfolding window_inv_def by blast
      qed
    qed
    from a s' c d i show ?thesis by simp
  qed
next
  case Alloc
  with st inv show ?thesis by (auto simp: AllocRTV_def window_inv_def)
next
  case (Destroy wid)
  with st inv show ?thesis by (auto simp: DestroyOutputWindow_def window_inv_def split: if_splits)
next
  case (CheckResize ans wid)
  with st obtain r where r: "CheckResizeOutputWindow ans wid s = Inr (r, s')" and a: "a = Nothing"
    by (auto split: sum.splits)
  from resize_frame [OF r, of dev] inv a show ?thesis by simp
next
  case (Flip wid)
  with st have r: "FlipOutputWindow wid s = Inr s'" and a: "a = Nothing"
    by (auto split: sum.splits)
  from flip_frame [OF r, of dev] inv a show ?thesis by simp
next
  case (Bind wid want_depth)
  with st inv show ?thesis
    by (auto simp: BindOutputWindow_def SetOutputDimensions_def window_inv_def Let_def
        split: if_splits)
next
  case (ClearColour wid)
  with st inv show ?thesis
    by (auto simp: ClearOutputWindowColour_def issue_all_def window_inv_def split: if_splits)
next
  case (ClearDepth wid stencil)
  with st inv show ?thesis
    by (auto simp: ClearOutputWindowDepth_def issue_all_def window_inv_def split: if_splits)
qed

lemma run_effect:
  assumes "run_ops dev ops s = Inr (allocs, s')" and "m_OutputWindowID s \<noteq> 0"
    and "unat (m_OutputWindowID s) + length ops < 2 ^ 64" and "window_inv dev s"
  shows "window_inv dev s' \<and>
         map unat (List.map_filter drawn allocs) =
           [unat (m_OutputWindowID s) ..< unat (m_OutputWindowID s')] \<and>
         unat (m_OutputWindowID s) \<le> unat (m_OutputWindowID s') \<and>
         unat (m_OutputWindowID s') \<le> unat (m_OutputWindowID s) + length ops \<and>
         dom (m_OutputWindows s') \<subseteq> dom (m_OutputWindows s) \<union> {w. Handle w \<in> set allocs} \<and>
         (\<forall>i d. Slot i d \<in> set allocs \<longrightarrow> d = rtvHeapStart dev + i * ucast (rtvIncrement dev))"
  using assms
proof (induction ops arbitrary: s allocs)
  case Nil
  then show ?case by (simp add: map_filter_simps)
next
  case (Cons op ops)
  from Cons.prems(1) obtain a s1 as where
    st: "step dev op s = Inr (a, s1)" and
    rest: "run_ops dev ops s1 = Inr (as, s')" and
    allocs: "allocs = a # as"
    by (auto split: sum.splits)
  note eff = step_effect [OF st Cons.prems(2) Cons.prems(4)]
  have inv1: "window_inv dev s1" using eff by simp
  show ?case
  proof (cases "drawn a")
    case None
    with eff have c1: "m_OutputWindowID s1 = m_OutputWindowID s"
      and d1: "dom (m_OutputWindows s1) \<subseteq> dom (m_OutputWindows s)" by simp_all
    have nz1: "m_OutputWindowID s1 \<noteq> 0" using c1 Cons.prems(2) by simp
    have b1: "unat (m_OutputWindowID s1) + length ops < 2 ^ 64" using c1 Cons.prems(3) by simp
    note IH = Cons.IH [OF rest nz1 b1 inv1]
    have nslot: "\<forall>i d. a \<noteq> Slot i d" using None by (cases a) simp_all
    have nhandle: "\<forall>w. a \<noteq> Handle w" using None by (cases a) simp_all
    have doms: "dom (m_OutputWindows s') \<subseteq> dom (m_OutputWindows s) \<union> {w. Handle w \<in> set allocs}"
    proof
      fix k assume "k \<in> dom (m_OutputWindows s')"
      with IH have "k \<in> dom (m_OutputWindows s1) \<or> Handle k \<in> set as" by auto
      with d1 allocs show "k \<in> dom (m_OutputWindows s) \<union> {w. Handle w \<in> set allocs}" by auto
    qed
    have slots: "\<forall>i d. Slot i d \<in> set allocs \<longrightarrow> d = rtvHeapStart dev + i * ucast (rtvIncrement dev)"
      using IH allocs nslot by auto
    from IH c1 None allocs doms slots show ?thesis
      by (simp add: map_filter_simps)
  next
    case (Some v)
    with eff have all: "v = m_OutputWindowID s \<and> m_OutputWindowID s1 = v + 1 \<and>
            ((a = Handle v \<and> dom (m_OutputWindows s1) \<subseteq> insert v (dom (m_OutputWindows s))) \<or>
             (a = Slot v (rtvHeapStart dev + v * ucast (rtvIncrement dev)) \<and>
              dom (m_OutputWindows s1) \<subseteq> dom (m_OutputWindows s)))"
      by blast
    then have v: "v = m_OutputWindowID s" and c1: "m_OutputWindowID s1 = v + 1"
      and shape: "(a = Handle v \<and> dom (m_OutputWindows s1) \<subseteq> insert v (dom (m_OutputWindows s))) \<or>
             (a = Slot v (rtvHeapStart dev + v * ucast (rtvIncrement dev)) \<and>
              dom (m_OutputWindows s1) \<subseteq> dom (m_OutputWindows s))"
      by blast+
    have room: "unat (m_OutputWindowID s) + unat (1 :: 64 word) < 2 ^ 64"
      using Cons.prems(3) by simp
    have u1: "unat (m_OutputWindowID s1) = unat (m_OutputWindowID s) + 1"
      using c1 v room by (simp add: unat_add_lem [THEN iffD1])
    have nz1: "m_OutputWindowID s1 \<noteq> 0" using u1 by (auto simp: unat_eq_0 [symmetric] simp del: unat_eq_0)
    have b1: "unat (m_OutputWindowID s1) + length ops < 2 ^ 64" using u1 Cons.prems(3) by simp
    note IH = Cons.IH [OF rest nz1 b1 inv1]
    from IH have le: "unat (m_OutputWindowID s1) \<le> unat (m_OutputWindowID s')" by simp
    have upt: "[unat (m_OutputWindowID s) ..< unat (m_OutputWindowID s')] =
        unat (m_OutputWindowID s) # [unat (m_OutputWindowID s1) ..< unat (m_OutputWindowID s')]"
      using le u1 by (simp add: upt_conv_Cons)
    have lists: "map unat (List.map_filter drawn allocs) =
        [unat (m_OutputWindowID s) ..< unat (m_OutputWindowID s')]"
      using IH allocs Some v upt by (simp add: map_filter_simps)
    have doms: "dom (m_OutputWindows s') \<subseteq> dom (m_OutputWindows s) \<union> {w. Handle w \<in> set allocs}"
    proof
      fix k assume "k \<in> dom (m_OutputWindows s')"
      with IH have "k \<in> dom (m_OutputWindows s1) \<or> Handle k \<in> set as" by auto
      with shape allocs show "k \<in> dom (m_OutputWindows s) \<union> {w. Handle w \<in> set allocs}" by auto
    qed
    have slots: "\<forall>i d. Slot i d \<in> set allocs \<longrightarrow> d = rtvHeapStart dev + i * ucast (rtvIncrement dev)"
      using IH shape allocs by auto
    from IH lists doms slots u1 show ?thesis by simp
  qed
qed

lemma new_manager_inv: "window_inv dev (new_manager current)"
  by (simp add: window_inv_def new_manager_def)

text \<open>
  Claim C10. From the constructor's state (counter 1), along any run of the manager's
  operations that is shorter than the 64-bit counter's range: the values drawn, by
  \<^verbatim>\<open>MakeOutputWindow\<close> as the handle it returns and by \<^verbatim>\<open>AllocRTV\<close> as the slot index
  of the descriptor it returns, read in the order of the calls, are 1, 2, 3, ... with
  no gap; so no handle is 0, none is drawn twice (also after a destroy), and none is a
  slot index that \<^verbatim>\<open>AllocRTV\<close> gave out. The descriptor of \<^verbatim>\<open>AllocRTV\<close> is the start of
  the RTV heap plus index times increment, and every window in the table was returned
  as a handle and has as its two descriptors the starts of the RTV and DSV heaps plus
  its handle times the heap's increment.
\<close>

theorem handles_and_slots_share_counter:
  assumes "run_ops dev ops (new_manager current) = Inr (allocs, s)"
    and "length ops < 2 ^ 64 - 1"
  shows "m_OutputWindowID (new_manager current) = 1 \<and>
         map unat (List.map_filter drawn allocs) =
           [1 ..< 1 + length (List.map_filter drawn allocs)] \<and>
         unat (m_OutputWindowID s) = 1 + length (List.map_filter drawn allocs) \<and>
         distinct (List.map_filter drawn allocs) \<and>
         0 \<notin> set (List.map_filter drawn allocs) \<and>
         (\<forall>i d. Slot i d \<in> set allocs \<longrightarrow> d = rtvHeapStart dev + i * ucast (rtvIncrement dev)) \<and>
         (\<forall>wid outw. m_OutputWindows s wid = Some outw \<longrightarrow>
            Handle wid \<in> set allocs \<and>
            rtv outw = rtvHeapStart dev + wid * ucast (rtvIncrement dev) \<and>
            dsv outw = dsvHeapStart dev + wid * ucast (dsvIncrement dev))"
proof -
  let ?ds = "List.map_filter drawn allocs"
  have one: "m_OutputWindowID (new_manager current) = 1" by (simp add: new_manager_def)
  have nz: "m_OutputWindowID (new_manager current) \<noteq> 0" by (simp add: new_manager_def)
  have room: "unat (m_OutputWindowID (new_manager current)) + length ops < 2 ^ 64"
    using assms(2) by (simp add: new_manager_def)
  note eff = run_effect [OF assms(1) nz room new_manager_inv]
  from eff one have m: "map unat ?ds = [1 ..< unat (m_OutputWindowID s)]"
    and le: "1 \<le> unat (m_OutputWindowID s)" by simp_all
  from m have "length ?ds = unat (m_OutputWindowID s) - 1"
    by (metis length_map length_upt)
  with le have c: "unat (m_OutputWindowID s) = 1 + length ?ds" by simp
  have "distinct (map unat ?ds)" unfolding m by simp
  then have d: "distinct ?ds" by (simp add: distinct_map)
  have z: "0 \<notin> set ?ds"
  proof
    assume "0 \<in> set ?ds"
    then have "unat (0 :: 64 word) \<in> set (map unat ?ds)" by (simp only: set_map) (rule imageI)
    then show False unfolding m by simp
  qed
  have slots: "\<forall>i d. Slot i d \<in> set allocs \<longrightarrow> d = rtvHeapStart dev + i * ucast (rtvIncrement dev)"
    using eff by blast
  have wins: "\<forall>wid outw. m_OutputWindows s wid = Some outw \<longrightarrow>
            Handle wid \<in> set allocs \<and>
            rtv outw = rtvHeapStart dev + wid * ucast (rtvIncrement dev) \<and>
            dsv outw = dsvHeapStart dev + wid * ucast (dsvIncrement dev)"
  proof (intro allI impI)
    fix wid outw assume w: "m_OutputWindows s wid = Some outw"
    from eff have "dom (m_OutputWindows s) \<subseteq> dom (m_OutputWindows (new_manager current)) \<union> {w. Handle w \<in> set allocs}"
      by blast
    with w have h: "Handle wid \<in> set allocs" by (auto simp: new_manager_def)
    from eff have "window_inv dev s" by blast
    with w h show "Handle wid \<in> set allocs \<and>
            rtv outw = rtvHeapStart dev + wid * ucast (rtvIncrement dev) \<and>
            dsv outw = dsvHeapStart dev + wid * ucast (dsvIncrement dev)"
      unfolding window_inv_def by blast
  qed
  from one m c d z slots wins show ?thesis by simp
qed

lemma example_run:
  "\<exists>s. run_ops example_device
       [Make window_640x480 (Some 1) False, Alloc,
        Make (window_800x600\<lparr>swapchain_ok := False\<rparr>) (Some 2) True,
        Destroy 1, Make window_800x600 (Some 2) True] (new_manager 0) =
     Inr ([Handle 1, Slot 2 4160, Nothing, Nothing, Handle 3], s) \<and>
     m_OutputWindows s 1 = None \<and> m_OutputWindows s 3 \<noteq> None"
  by (simp add: MakeOutputWindow_def DestroyOutputWindow_def AllocRTV_def MakeRTV_def MakeDSV_def
      GetBuffer_def example_device_def window_640x480_def window_800x600_def new_manager_def
      issue_def issue_all_def store_def Let_def)

theorem handles_and_slots_share_counter_witness:
  "\<exists>s. run_ops example_device
       [Make window_640x480 (Some 1) False, Alloc,
        Make (window_800x600\<lparr>swapchain_ok := False\<rparr>) (Some 2) True,
        Destroy 1, Make window_800x600 (Some 2) True] (new_manager 0) =
     Inr ([Handle 1, Slot 2 4160, Nothing, Nothing, Handle 3], s) \<and>
     unat (m_OutputWindowID s) = 4 \<and>
     distinct [1, 2, 3 :: 64 word] \<and>
     rtv (the (m_OutputWindows s 3)) = 4192 \<and> dsv (the (m_OutputWindows s 3)) = 8216"
proof -
  let ?ops = "[Make window_640x480 (Some 1) False, Alloc,
        Make (window_800x600\<lparr>swapchain_ok := False\<rparr>) (Some 2) True,
        Destroy 1, Make window_800x600 (Some 2) True]"
  from example_run obtain s where
    run: "run_ops example_device ?ops (new_manager 0) =
            Inr ([Handle 1, Slot 2 4160, Nothing, Nothing, Handle 3], s)" and
    w: "m_OutputWindows s 3 \<noteq> None"
    by blast
  have len: "length ?ops < 2 ^ 64 - 1" by simp
  from handles_and_slots_share_counter [OF run len] w
  have "unat (m_OutputWindowID s) = 4 \<and> distinct [1, 2, 3 :: 64 word] \<and>
     rtv (the (m_OutputWindows s 3)) = 4192 \<and> dsv (the (m_OutputWindows s 3)) = 8216"
    by (auto simp: map_filter_simps example_device_def)
  with run show ?thesis by blast
qed

subsection \<open>Facts about texture display\<close>

lemma transitions_append:
  "transitions resource (bs @ cs) states =
     (case transitions resource bs states of
        None \<Rightarrow> None
      | Some states' \<Rightarrow> transitions resource cs states')"
  by (induction bs arbitrary: states) (auto split: option.splits)

lemma transitions_upt:
  assumes "m \<le> length states" and "\<forall>i<m. before i = states ! i"
  shows "transitions resource
           (map (\<lambda>i. \<lparr>pResource = Some resource, Subresource = i,
                        StateBefore = before i, StateAfter = after i\<rparr>) [0..<m]) states =
         Some (map after [0..<m] @ drop m states)"
  using assms
proof (induction m)
  case 0
  show ?case by simp
next
  case (Suc m)
  let ?mid = "map after [0..<m] @ drop m states"
  have IH: "transitions resource
           (map (\<lambda>i. \<lparr>pResource = Some resource, Subresource = i,
                        StateBefore = before i, StateAfter = after i\<rparr>) [0..<m]) states =
         Some ?mid"
    using Suc by simp
  have m: "m < length states" using Suc.prems by simp
  have len: "m < length ?mid" using m by simp
  have at: "?mid ! m = states ! m"
    using m by (simp add: nth_append)
  have upd: "?mid[m := after m] = map after [0..<Suc m] @ drop (Suc m) states"
    using m by (simp add: list_update_append Cons_nth_drop_Suc [symmetric])
  have step: "transition resource
      \<lparr>pResource = Some resource, Subresource = m, StateBefore = before m, StateAfter = after m\<rparr>
      ?mid = Some (map after [0..<Suc m] @ drop (Suc m) states)"
    using len at upd Suc.prems(2) by (simp add: transition_def)
  have split: "map (\<lambda>i. \<lparr>pResource = Some resource, Subresource = i,
                        StateBefore = before i, StateAfter = after i\<rparr>) [0..<Suc m] =
      map (\<lambda>i. \<lparr>pResource = Some resource, Subresource = i,
                        StateBefore = before i, StateAfter = after i\<rparr>) [0..<m] @
      [\<lparr>pResource = Some resource, Subresource = m, StateBefore = before m, StateAfter = after m\<rparr>]"
    by simp
  show ?case
    unfolding split transitions_append IH using step by simp
qed

lemma nudge_range_same [simp]:
  "texid (nudge_range fl cfg) = texid cfg"
  "rangemin (nudge_range fl cfg) = rangemin cfg"
  "rawoutput (nudge_range fl cfg) = rawoutput cfg"
  "CustomShader (nudge_range fl cfg) = CustomShader cfg"
  by (simp_all add: nudge_range_def)

lemma barriers_there:
  "transitions resource (map (to_shader_resource resource states) [0..<length states]) states =
     Some (replicate (length states) D3D12_RESOURCE_STATE_PIXEL_SHADER_RESOURCE)"
proof -
  have "transitions resource
           (map (\<lambda>i. \<lparr>pResource = Some resource, Subresource = i,
                        StateBefore = states ! i,
                        StateAfter = D3D12_RESOURCE_STATE_PIXEL_SHADER_RESOURCE\<rparr>)
              [0..<length states]) states =
         Some (map (\<lambda>i. D3D12_RESOURCE_STATE_PIXEL_SHADER_RESOURCE) [0..<length states] @
               drop (length states) states)"
    by (rule transitions_upt) simp_all
  moreover have "to_shader_resource resource states =
      (\<lambda>i. \<lparr>pResource = Some resource, Subresource = i, StateBefore = states ! i,
             StateAfter = D3D12_RESOURCE_STATE_PIXEL_SHADER_RESOURCE\<rparr>)"
    by (rule ext) (simp add: to_shader_resource_def)
  ultimately show ?thesis by (simp add: map_replicate_const)
qed

lemma barriers_back:
  "transitions resource
     (map swap_states (map (to_shader_resource resource states) [0..<length states]))
     (replicate (length states) D3D12_RESOURCE_STATE_PIXEL_SHADER_RESOURCE) = Some states"
proof -
  let ?there = "replicate (length states) D3D12_RESOURCE_STATE_PIXEL_SHADER_RESOURCE"
  have "transitions resource
           (map (\<lambda>i. \<lparr>pResource = Some resource, Subresource = i,
                        StateBefore = D3D12_RESOURCE_STATE_PIXEL_SHADER_RESOURCE,
                        StateAfter = states ! i\<rparr>)
              [0..<length states]) ?there =
         Some (map (\<lambda>i. states ! i) [0..<length states] @ drop (length states) ?there)"
    by (rule transitions_upt) simp_all
  then have first: "transitions resource
           (map (\<lambda>i. \<lparr>pResource = Some resource, Subresource = i,
                        StateBefore = D3D12_RESOURCE_STATE_PIXEL_SHADER_RESOURCE,
                        StateAfter = states ! i\<rparr>)
              [0..<length states]) ?there = Some states"
    by (simp add: map_nth)
  have eq: "map swap_states (map (to_shader_resource resource states) [0..<length states]) =
      map (\<lambda>i. \<lparr>pResource = Some resource, Subresource = i,
                        StateBefore = D3D12_RESOURCE_STATE_PIXEL_SHADER_RESOURCE,
                        StateAfter = states ! i\<rparr>) [0..<length states]"
    by (simp add: swap_states_def to_shader_resource_def)
  show ?thesis unfolding eq by (rule first)
qed

lemma current_window_issue_all:
  "current_window (issue_all cs s) =
     (fst (current_window s), issue_all cs (snd (current_window s)))"
  by (simp add: current_window_def issue_all_def store_def split: option.splits)

lemma device_calls_current_window:
  "device_calls (snd (current_window s)) = device_calls s"
  by (simp add: current_window_def store_def split: option.splits)

lemma RenderTexture_drawn:
  assumes "m_List dev (texid cfg) = Some resource"
    and "res_Format resource \<noteq> DXGI_FORMAT_UNKNOWN"
  shows "RenderTexture fl dev cfg blendAlpha s =
     Inr ((True, Some (range_pixelData fl (nudge_range fl cfg))),
          issue_all
            [GetNewList,
             ResourceBarrier
               (map (to_shader_resource resource (GetSubresourceStates dev (texid cfg)))
                  [0..<length (GetSubresourceStates dev (texid cfg))]),
             OMSetRenderTargets (rtv (fst (current_window s))),
             RSSetViewports (width (fst (current_window s))) (height (fst (current_window s))),
             RSSetScissorRects (width (fst (current_window s))) (height (fst (current_window s))),
             IASetPrimitiveTopology_TRIANGLESTRIP,
             SetPipelineState
               (if rawoutput cfg \<or> \<not> blendAlpha \<or> CustomShader cfg \<noteq> 0
                then TexDisplayPipe else TexDisplayBlendPipe),
             SetGraphicsRootSignature, SetDescriptorHeaps,
             SetGraphicsRootConstantBufferView 0 GenericVSCbuffer,
             SetGraphicsRootConstantBufferView 1 GenericPSCbuffer,
             SetGraphicsRootDescriptorTable 2, SetGraphicsRootDescriptorTable 3,
             OMSetBlendFactor,
             DrawInstanced 4 1 0 0,
             ResourceBarrier
               (map swap_states
                  (map (to_shader_resource resource (GetSubresourceStates dev (texid cfg)))
                     [0..<length (GetSubresourceStates dev (texid cfg))])),
             Close, ExecuteLists, FlushLists None]
            (issue_all [CreateShaderResourceView resource, FillBuffer GenericVSCbuffer,
                        FillBuffer GenericPSCbuffer] (snd (current_window s))))"
  using assms
  by (simp add: RenderTexture_def Let_def current_window_issue_all)

lemma RenderTexture_true:
  assumes "RenderTexture fl dev cfg blendAlpha s = Inr ((True, written), s')"
  shows "\<exists>resource. m_List dev (texid cfg) = Some resource \<and>
           res_Format resource \<noteq> DXGI_FORMAT_UNKNOWN"
proof (cases "m_List dev (texid cfg)")
  case None
  with assms show ?thesis by (simp add: RenderTexture_def Let_def)
next
  case (Some resource)
  with assms show ?thesis
    by (cases "res_Format resource = DXGI_FORMAT_UNKNOWN") (simp_all add: RenderTexture_def Let_def)
qed

text \<open>
  Claim C1. A call of \<^verbatim>\<open>RenderTexture\<close> that returns true, under any configuration and
  blend flag, has made exactly these calls: the shader resource view and the two
  constant buffers; then, in one list, for each subresource \<open>i\<close> of the displayed
  resource a transition from its captured state \<open>states[i]\<close> to pixel-shader resource,
  the draw state and the draw, and for each \<open>i\<close> the transition from pixel-shader
  resource back to \<open>states[i]\<close>; then close, execute and flush. Applied to the tracked
  states, the calls up to the first barrier put every subresource in the
  pixel-shader-resource state, and all calls together leave the states as they were.
\<close>

theorem barrier_symmetry:
  assumes "RenderTexture fl dev cfg blendAlpha s = Inr ((True, written), s')"
  shows "\<exists>resource.
     m_List dev (texid cfg) = Some resource \<and>
     device_calls s' = device_calls s @
       [CreateShaderResourceView resource, FillBuffer GenericVSCbuffer, FillBuffer GenericPSCbuffer,
        GetNewList,
        ResourceBarrier
          (map (\<lambda>i. \<lparr>pResource = Some resource, Subresource = i,
                       StateBefore = GetSubresourceStates dev (texid cfg) ! i,
                       StateAfter = D3D12_RESOURCE_STATE_PIXEL_SHADER_RESOURCE\<rparr>)
             [0..<length (GetSubresourceStates dev (texid cfg))]),
        OMSetRenderTargets (rtv (fst (current_window s))),
        RSSetViewports (width (fst (current_window s))) (height (fst (current_window s))),
        RSSetScissorRects (width (fst (current_window s))) (height (fst (current_window s))),
        IASetPrimitiveTopology_TRIANGLESTRIP,
        SetPipelineState
          (if rawoutput cfg \<or> \<not> blendAlpha \<or> CustomShader cfg \<noteq> 0
           then TexDisplayPipe else TexDisplayBlendPipe),
        SetGraphicsRootSignature, SetDescriptorHeaps,
        SetGraphicsRootConstantBufferView 0 GenericVSCbuffer,
        SetGraphicsRootConstantBufferView 1 GenericPSCbuffer,
        SetGraphicsRootDescriptorTable 2, SetGraphicsRootDescriptorTable 3,
        OMSetBlendFactor,
        DrawInstanced 4 1 0 0,
        ResourceBarrier
          (map (\<lambda>i. \<lparr>pResource = Some resource, Subresource = i,
                       StateBefore = D3D12_RESOURCE_STATE_PIXEL_SHADER_RESOURCE,
                       StateAfter = GetSubresourceStates dev (texid cfg) ! i\<rparr>)
             [0..<length (GetSubresourceStates dev (texid cfg))]),
        Close, ExecuteLists, FlushLists None] \<and>
     states_after resource (take 5 (drop (length (device_calls s)) (device_calls s')))
        (GetSubresourceStates dev (texid cfg)) =
       Some (replicate (length (GetSubresourceStates dev (texid cfg)))
               D3D12_RESOURCE_STATE_PIXEL_SHADER_RESOURCE) \<and>
     states_after resource (drop (length (device_calls s)) (device_calls s'))
        (GetSubresourceStates dev (texid cfg)) =
       Some (GetSubresourceStates dev (texid cfg))"
proof -
  let ?states = "GetSubresourceStates dev (texid cfg)"
  from RenderTexture_true [OF assms] obtain resource where
    r: "m_List dev (texid cfg) = Some resource" and f: "res_Format resource \<noteq> DXGI_FORMAT_UNKNOWN"
    by blast
  let ?pre = "map (\<lambda>i. \<lparr>pResource = Some resource, Subresource = i,
                       StateBefore = ?states ! i,
                       StateAfter = D3D12_RESOURCE_STATE_PIXEL_SHADER_RESOURCE\<rparr>)
             [0..<length ?states]"
  let ?post = "map (\<lambda>i. \<lparr>pResource = Some resource, Subresource = i,
                       StateBefore = D3D12_RESOURCE_STATE_PIXEL_SHADER_RESOURCE,
                       StateAfter = ?states ! i\<rparr>)
             [0..<length ?states]"
  have pre: "map (to_shader_resource resource ?states) [0..<length ?states] = ?pre"
    by (simp add: to_shader_resource_def)
  have post: "map swap_states ?pre = ?post"
    by (simp add: swap_states_def)
  let ?new = "[CreateShaderResourceView resource, FillBuffer GenericVSCbuffer, FillBuffer GenericPSCbuffer,
        GetNewList,
        ResourceBarrier ?pre,
        OMSetRenderTargets (rtv (fst (current_window s))),
        RSSetViewports (width (fst (current_window s))) (height (fst (current_window s))),
        RSSetScissorRects (width (fst (current_window s))) (height (fst (current_window s))),
        IASetPrimitiveTopology_TRIANGLESTRIP,
        SetPipelineState
          (if rawoutput cfg \<or> \<not> blendAlpha \<or> CustomShader cfg \<noteq> 0
           then TexDisplayPipe else TexDisplayBlendPipe),
        SetGraphicsRootSignature, SetDescriptorHeaps,
        SetGraphicsRootConstantBufferView 0 GenericVSCbuffer,
        SetGraphicsRootConstantBufferView 1 GenericPSCbuffer,
        SetGraphicsRootDescriptorTable 2, SetGraphicsRootDescriptorTable 3,
        OMSetBlendFactor,
        DrawInstanced 4 1 0 0,
        ResourceBarrier ?post,
        Close, ExecuteLists, FlushLists None]"
  have s': "s' = issue_all (drop 3 ?new)
            (issue_all [CreateShaderResourceView resource, FillBuffer GenericVSCbuffer,
                        FillBuffer GenericPSCbuffer] (snd (current_window s)))"
    using assms unfolding RenderTexture_drawn [OF r f] pre post by simp
  have calls: "device_calls s' = device_calls s @ ?new"
    unfolding s' by (simp add: issue_all_def device_calls_current_window)
  then have new: "drop (length (device_calls s)) (device_calls s') = ?new" by simp
  have there: "states_after resource (take 5 ?new) ?states =
      Some (replicate (length ?states) D3D12_RESOURCE_STATE_PIXEL_SHADER_RESOURCE)"
    using barriers_there [of resource ?states] unfolding pre by simp
  have restored: "states_after resource ?new ?states = Some ?states"
    using barriers_there [of resource ?states] barriers_back [of resource ?states]
    unfolding pre post by simp
  show ?thesis
  proof (intro exI conjI)
    show "m_List dev (texid cfg) = Some resource" by (rule r)
    show "device_calls s' = device_calls s @ ?new" by (rule calls)
    show "states_after resource (take 5 (drop (length (device_calls s)) (device_calls s'))) ?states =
       Some (replicate (length ?states) D3D12_RESOURCE_STATE_PIXEL_SHADER_RESOURCE)"
      unfolding new by (rule there)
    show "states_after resource (drop (length (device_calls s)) (device_calls s')) ?states =
       Some ?states"
      unfolding new by (rule restored)
  qed
qed

lemma example_texture:
  "m_List example_device (texid example_display) =
     Some \<lparr>res_addr = 70, res_Width = 256, res_Height = 128,
            res_Format = DXGI_FORMAT_R8G8B8A8_UNORM,
            res_Flags = D3D12_RESOURCE_FLAG_ALLOW_RENDER_TARGET\<rparr>"
  "GetSubresourceStates example_device (texid example_display) =
     [D3D12_RESOURCE_STATE_RENDER_TARGET, D3D12_RESOURCE_STATE_COPY_DEST]"
  by (simp_all add: example_device_def example_display_def)

theorem barrier_symmetry_witness:
  "\<exists>written s'.
     RenderTexture example_floats example_device example_display True
       (BindOutputWindow example_device 1 False flipped_once) = Inr ((True, written), s') \<and>
     states_after
       \<lparr>res_addr = 70, res_Width = 256, res_Height = 128,
        res_Format = DXGI_FORMAT_R8G8B8A8_UNORM,
        res_Flags = D3D12_RESOURCE_FLAG_ALLOW_RENDER_TARGET\<rparr>
       (drop (length (device_calls (BindOutputWindow example_device 1 False flipped_once)))
          (device_calls s'))
       [D3D12_RESOURCE_STATE_RENDER_TARGET, D3D12_RESOURCE_STATE_COPY_DEST] =
     Some [D3D12_RESOURCE_STATE_RENDER_TARGET, D3D12_RESOURCE_STATE_COPY_DEST]"
proof -
  let ?s = "BindOutputWindow example_device 1 False flipped_once"
  have f: "res_Format \<lparr>res_addr = 70, res_Width = 256, res_Height = 128,
            res_Format = DXGI_FORMAT_R8G8B8A8_UNORM,
            res_Flags = D3D12_RESOURCE_FLAG_ALLOW_RENDER_TARGET\<rparr> \<noteq> DXGI_FORMAT_UNKNOWN"
    by simp
  from RenderTexture_drawn [OF example_texture(1) f, of example_floats True ?s]
  obtain written s' where
    run: "RenderTexture example_floats example_device example_display True ?s =
            Inr ((True, written), s')"
    by blast
  from barrier_symmetry [OF run] have
    "states_after
       \<lparr>res_addr = 70, res_Width = 256, res_Height = 128,
        res_Format = DXGI_FORMAT_R8G8B8A8_UNORM,
        res_Flags = D3D12_RESOURCE_FLAG_ALLOW_RENDER_TARGET\<rparr>
       (drop (length (device_calls ?s)) (device_calls s'))
       [D3D12_RESOURCE_STATE_RENDER_TARGET, D3D12_RESOURCE_STATE_COPY_DEST] =
     Some [D3D12_RESOURCE_STATE_RENDER_TARGET, D3D12_RESOURCE_STATE_COPY_DEST]"
    by (auto simp: example_texture)
  with run show ?thesis by blast
qed

text \<open>
  Claim C9. For a call of \<^verbatim>\<open>RenderTexture\<close> with \<open>rangemax <= rangemin\<close> that fills the
  pixel constant buffer, whatever the float operations compute (\<^verbatim>\<open>FLT_MAX\<close> being a
  finite number): the inverse range written is finite and not a NaN; it is the
  reciprocal of \<open>(rangemax + 0.00001f) - rangemin\<close> if that reciprocal is finite and not
  a NaN, and \<^verbatim>\<open>FLT_MAX\<close> otherwise.
\<close>

theorem inverse_range_is_finite:
  assumes "f_finite fl (FLT_MAX fl)" and "\<not> f_isnan fl (FLT_MAX fl)"
    and "f_le fl (rangemax cfg) (rangemin cfg)"
    and "RenderTexture fl dev cfg blendAlpha s = Inr ((ok, Some pixelData), s')"
  shows "f_finite fl (InverseRangeSize pixelData) \<and> \<not> f_isnan fl (InverseRangeSize pixelData) \<and>
         InverseRangeSize pixelData =
           (if f_isnan fl (f_div fl (f_one fl)
                 (f_sub fl (f_add fl (rangemax cfg) (f_nudge fl)) (rangemin cfg))) \<or>
               \<not> f_finite fl (f_div fl (f_one fl)
                 (f_sub fl (f_add fl (rangemax cfg) (f_nudge fl)) (rangemin cfg)))
            then FLT_MAX fl
            else f_div fl (f_one fl)
                 (f_sub fl (f_add fl (rangemax cfg) (f_nudge fl)) (rangemin cfg))) \<and>
         RangeMinimum pixelData = rangemin cfg \<and>
         ok \<and> FillBuffer GenericPSCbuffer \<in> set (device_calls s')"
proof -
  have ok: "ok"
    using assms(4) by (auto simp: RenderTexture_def Let_def split: option.splits if_splits prod.splits)
  with assms(4) have run: "RenderTexture fl dev cfg blendAlpha s = Inr ((True, Some pixelData), s')"
    by simp
  from RenderTexture_true [OF run] obtain resource where
    r: "m_List dev (texid cfg) = Some resource" and f: "res_Format resource \<noteq> DXGI_FORMAT_UNKNOWN"
    by blast
  from run have p: "pixelData = range_pixelData fl (nudge_range fl cfg)"
    unfolding RenderTexture_drawn [OF r f] by simp
  have written: "FillBuffer GenericPSCbuffer \<in> set (device_calls s')"
    using run unfolding RenderTexture_drawn [OF r f] by (auto simp: issue_all_def)
  have n: "nudge_range fl cfg = cfg\<lparr>rangemax := f_add fl (rangemax cfg) (f_nudge fl)\<rparr>"
    using assms(3) by (simp add: nudge_range_def)
  from p n assms(1,2) ok written show ?thesis
    by (simp add: range_pixelData_def Let_def)
qed

theorem inverse_range_is_finite_witness:
  "f_finite example_floats (FLT_MAX example_floats) \<and>
   \<not> f_isnan example_floats (FLT_MAX example_floats) \<and>
   f_le example_floats (rangemax example_display) (rangemin example_display) \<and>
   f_div example_floats (f_one example_floats)
     (f_sub example_floats
        (f_add example_floats (rangemax example_display) (f_nudge example_floats))
        (rangemin example_display)) = None \<and>
   (\<exists>pixelData s'.
      RenderTexture example_floats example_device example_display True flipped_once =
        Inr ((True, Some pixelData), s') \<and>
      InverseRangeSize pixelData = Some 340282346638528859811704183484516925440)"
proof -
  have h1: "f_finite example_floats (FLT_MAX example_floats)"
    and h2: "\<not> f_isnan example_floats (FLT_MAX example_floats)"
    and h3: "f_le example_floats (rangemax example_display) (rangemin example_display)"
    by (simp_all add: example_floats_def example_display_def)
  have inf: "f_div example_floats (f_one example_floats)
     (f_sub example_floats
        (f_add example_floats (rangemax example_display) (f_nudge example_floats))
        (rangemin example_display)) = None"
    by (simp add: example_floats_def example_display_def lift2_def)
  have f: "res_Format \<lparr>res_addr = 70, res_Width = 256, res_Height = 128,
            res_Format = DXGI_FORMAT_R8G8B8A8_UNORM,
            res_Flags = D3D12_RESOURCE_FLAG_ALLOW_RENDER_TARGET\<rparr> \<noteq> DXGI_FORMAT_UNKNOWN"
    by simp
  from RenderTexture_drawn [OF example_texture(1) f, of example_floats True flipped_once]
  obtain pixelData s' where
    run: "RenderTexture example_floats example_device example_display True flipped_once =
            Inr ((True, Some pixelData), s')"
    by blast
  from inverse_range_is_finite [OF h1 h2 h3 run] inf
  have "InverseRangeSize pixelData = Some 340282346638528859811704183484516925440"
    by (simp add: example_floats_def)
  with h1 h2 h3 inf run show ?thesis by blast
qed

subsection \<open>Facts about handles that were never returned\<close>

text \<open>
  Which keys the table can get, and what the current selection can become, in one step.
\<close>

lemma current_window_keys:
  "dom (m_OutputWindows (snd (current_window s))) \<subseteq>
     insert (m_CurrentOutputWindow s) (dom (m_OutputWindows s)) \<and>
   m_CurrentOutputWindow (snd (current_window s)) = m_CurrentOutputWindow s"
  by (auto simp: current_window_def store_def split: option.splits)

lemma issue_all_keys:
  "m_OutputWindows (issue_all cs s) = m_OutputWindows s \<and>
   m_CurrentOutputWindow (issue_all cs s) = m_CurrentOutputWindow s"
  by (simp add: issue_all_def)

lemma RenderTexture_keys:
  assumes "RenderTexture fl dev cfg blendAlpha s = Inr ((drew, written), s')"
  shows "(if drew
          then dom (m_OutputWindows s') \<subseteq>
                 insert (m_CurrentOutputWindow s) (dom (m_OutputWindows s))
          else m_OutputWindows s' = m_OutputWindows s) \<and>
         m_CurrentOutputWindow s' = m_CurrentOutputWindow s"
proof (cases "m_List dev (texid cfg)")
  case None
  with assms show ?thesis by (simp add: RenderTexture_def Let_def)
next
  case (Some resource)
  show ?thesis
  proof (cases "res_Format resource = DXGI_FORMAT_UNKNOWN")
    case True
    with assms Some have "s' = s \<and> \<not> drew" by (simp add: RenderTexture_def Let_def)
    then show ?thesis by simp
  next
    case False
    from assms RenderTexture_drawn [OF Some False, of fl blendAlpha s]
    have "drew \<and> m_OutputWindows s' = m_OutputWindows (snd (current_window s)) \<and>
          m_CurrentOutputWindow s' = m_CurrentOutputWindow (snd (current_window s))"
      by (auto simp: issue_all_keys)
    with current_window_keys [of s] show ?thesis by simp
  qed
qed

lemma RenderCheckerboard_keys:
  "dom (m_OutputWindows (RenderCheckerboard light dark s)) \<subseteq>
     insert (m_CurrentOutputWindow s) (dom (m_OutputWindows s)) \<and>
   m_CurrentOutputWindow (RenderCheckerboard light dark s) = m_CurrentOutputWindow s"
proof -
  let ?s1 = "issue_all [FillBuffer GenericVSCbuffer, FillBuffer GenericPSCbuffer] s"
  obtain cs where "RenderCheckerboard light dark s = issue_all cs (snd (current_window ?s1))"
    by (simp add: RenderCheckerboard_def Let_def split_beta)
  with current_window_keys [of ?s1] show ?thesis by (simp add: issue_all_keys)
qed

lemma MakeOutputWindow_current:
  assumes "MakeOutputWindow dev ans data want_depth s = Inr (wid, s')"
  shows "m_CurrentOutputWindow s' = m_CurrentOutputWindow s"
  using assms
  by (cases "swapchain_ok ans"; cases "colour_ok ans"; cases "depth_ok ans"; cases want_depth)
     (auto simp: MakeOutputWindow_def Let_def GetBuffer_def MakeRTV_Some MakeDSV_Some issue_def
        MakeRTV_def MakeDSV_def)

lemma resize_current:
  assumes "CheckResizeOutputWindow ans wid s = Inr (r, s')"
  shows "m_CurrentOutputWindow s' = m_CurrentOutputWindow s"
proof (cases "wid = 0 \<or> m_OutputWindows s wid = None")
  case True
  with assms resize_unknown [OF True, of ans] show ?thesis by simp
next
  case False
  then obtain outw where wid: "wid \<noteq> 0" and w: "m_OutputWindows s wid = Some outw" by auto
  show ?thesis
  proof (cases "wnd outw = None \<or> swapchain outw = None")
    case True
    with assms resize_no_surface [OF w True, of ans] show ?thesis by simp
  next
    case False
    then obtain sc where wn: "wnd outw \<noteq> None" and sc: "swapchain outw = Some sc" by auto
    show ?thesis
    proof (cases "client_width ans \<noteq> width outw \<or> client_height ans \<noteq> height outw")
      case False
      with assms resize_unchanged [OF wid w wn sc, of ans] show ?thesis by simp
    next
      case changed: True
      show ?thesis
      proof (cases "0 < client_width ans \<and> 0 < client_height ans")
        case False
        from assms resize_minimised [OF wid w wn sc changed False] show ?thesis by auto
      next
        case positive: True
        show ?thesis
        proof (cases "swapchain_ok ans")
          case False
          from assms resize_failed [OF wid w wn sc changed positive False] show ?thesis by auto
        next
          case True
          from resize_done [OF wid w wn sc changed positive True] assms show ?thesis by auto
        qed
      qed
    qed
  qed
qed

lemma flip_current:
  assumes "FlipOutputWindow wid s = Inr s'"
  shows "m_CurrentOutputWindow s' = m_CurrentOutputWindow s"
  using assms
  by (auto simp: FlipOutputWindow_def Let_def store_def issue_def issue_all_def
      split: if_splits option.splits)

lemma step_keys:
  assumes st: "step dev op s = Inr (a, s')"
  shows "dom (m_OutputWindows s') \<subseteq> dom (m_OutputWindows s) \<union> {w. a = Handle w} \<union> {0} \<and>
         (m_CurrentOutputWindow s' = m_CurrentOutputWindow s \<or>
          m_CurrentOutputWindow s' \<in> dom (m_OutputWindows s))"
proof (cases op)
  case (Make ans data want_depth)
  from st Make obtain wid where
    m: "MakeOutputWindow dev ans data want_depth s = Inr (wid, s')" and
    a: "a = (if wid = 0 then Nothing else Handle wid)"
    by (auto split: sum.splits)
  note cur = MakeOutputWindow_current [OF m]
  show ?thesis
  proof (cases "swapchain_ok ans")
    case False
    with m have "s' = s" by (simp add: MakeOutputWindow_fail)
    then show ?thesis by auto
  next
    case True
    from MakeOutputWindow_ok [OF True, of dev data want_depth s] m
    have wid: "wid = m_OutputWindowID s" and
      other: "\<forall>other. other \<noteq> wid \<longrightarrow> m_OutputWindows s' other = m_OutputWindows s other"
      by auto
    have "dom (m_OutputWindows s') \<subseteq> dom (m_OutputWindows s) \<union> {w. a = Handle w} \<union> {0}"
    proof
      fix k assume k: "k \<in> dom (m_OutputWindows s')"
      show "k \<in> dom (m_OutputWindows s) \<union> {w. a = Handle w} \<union> {0}"
      proof (cases "k = wid")
        case True
        with a show ?thesis by (cases "wid = 0") simp_all
      next
        case False
        with other k show ?thesis by auto
      qed
    qed
    with cur show ?thesis by simp
  qed
next
  case Alloc
  with st show ?thesis by (auto simp: AllocRTV_def)
next
  case (Destroy wid)
  with st show ?thesis by (auto simp: DestroyOutputWindow_def split: if_splits)
next
  case (CheckResize ans wid)
  with st obtain r where r: "CheckResizeOutputWindow ans wid s = Inr (r, s')"
    by (auto split: sum.splits)
  from resize_frame [OF r, of dev] resize_current [OF r] show ?thesis by auto
next
  case (Flip wid)
  with st have r: "FlipOutputWindow wid s = Inr s'"
    by (auto split: sum.splits)
  from flip_frame [OF r, of dev] flip_current [OF r] show ?thesis by auto
next
  case (Bind wid want_depth)
  with st show ?thesis
    by (auto simp: BindOutputWindow_def SetOutputDimensions_def Let_def split: if_splits)
next
  case (ClearColour wid)
  with st show ?thesis
    by (auto simp: ClearOutputWindowColour_def issue_all_def split: if_splits)
next
  case (ClearDepth wid stencil)
  with st show ?thesis
    by (auto simp: ClearOutputWindowDepth_def issue_all_def split: if_splits)
qed

lemma session_step_keys:
  assumes st: "session_step fl dev op s = Inr (ev, s')"
  shows "dom (m_OutputWindows s') \<subseteq>
           dom (m_OutputWindows s) \<union> {w. ev = Drew (Handle w)} \<union> {0} \<union> {w. ev = Indexed w} \<and>
         (ev = Indexed (m_CurrentOutputWindow s) \<or> (\<forall>w. ev \<noteq> Indexed w)) \<and>
         (m_CurrentOutputWindow s' = m_CurrentOutputWindow s \<or>
          m_CurrentOutputWindow s' \<in> dom (m_OutputWindows s))"
proof (cases op)
  case (WindowOp wop)
  with st obtain a where "step dev wop s = Inr (a, s')" and "ev = Drew a"
    by (auto split: sum.splits)
  with step_keys [of dev wop s a s'] show ?thesis by auto
next
  case (Texture cfg blendAlpha)
  with st obtain drew written where
    r: "RenderTexture fl dev cfg blendAlpha s = Inr ((drew, written), s')" and
    ev: "ev = (if drew then Indexed (m_CurrentOutputWindow s) else Skipped)"
    by (auto split: sum.splits)
  from RenderTexture_keys [OF r] ev show ?thesis by (cases drew) auto
next
  case Checkerboard
  with st RenderCheckerboard_keys [of "()" "()" s] show ?thesis by auto
qed


lemma run_session_selection:
  assumes "run_session fl dev ops s = Inr (events, s')"
  shows "(\<forall>w. Indexed w \<in> set events \<longrightarrow>
            w = m_CurrentOutputWindow s \<or> w \<in> dom (m_OutputWindows s) \<or>
            Drew (Handle w) \<in> set events \<or> w = 0) \<and>
         (m_CurrentOutputWindow s' = m_CurrentOutputWindow s \<or>
          m_CurrentOutputWindow s' \<in> dom (m_OutputWindows s) \<or>
          Drew (Handle (m_CurrentOutputWindow s')) \<in> set events \<or>
          m_CurrentOutputWindow s' = 0)"
  using assms
proof (induction ops arbitrary: s events)
  case Nil
  then show ?case by auto
next
  case (Cons op ops)
  from Cons.prems obtain ev s1 evs where
    st: "session_step fl dev op s = Inr (ev, s1)" and
    rest: "run_session fl dev ops s1 = Inr (evs, s')" and
    events: "events = ev # evs"
    by (auto split: sum.splits)
  let ?known = "\<lambda>w. w = m_CurrentOutputWindow s \<or> w \<in> dom (m_OutputWindows s) \<or>
            Drew (Handle w) \<in> set events \<or> w = 0"
  from session_step_keys [OF st] have
    d1: "dom (m_OutputWindows s1) \<subseteq>
           dom (m_OutputWindows s) \<union> {w. ev = Drew (Handle w)} \<union> {0} \<union> {w. ev = Indexed w}" and
    i1: "ev = Indexed (m_CurrentOutputWindow s) \<or> (\<forall>w. ev \<noteq> Indexed w)" and
    c1: "m_CurrentOutputWindow s1 = m_CurrentOutputWindow s \<or>
         m_CurrentOutputWindow s1 \<in> dom (m_OutputWindows s)"
    by blast+
  have k1: "?known w" if "w \<in> dom (m_OutputWindows s1)" for w
    using that d1 i1 events by auto
  have kc: "?known (m_CurrentOutputWindow s1)"
    using c1 by auto
  from Cons.IH [OF rest] have
    i2: "\<forall>w. Indexed w \<in> set evs \<longrightarrow>
            w = m_CurrentOutputWindow s1 \<or> w \<in> dom (m_OutputWindows s1) \<or>
            Drew (Handle w) \<in> set evs \<or> w = 0" and
    c2: "m_CurrentOutputWindow s' = m_CurrentOutputWindow s1 \<or>
          m_CurrentOutputWindow s' \<in> dom (m_OutputWindows s1) \<or>
          Drew (Handle (m_CurrentOutputWindow s')) \<in> set evs \<or>
          m_CurrentOutputWindow s' = 0"
    by blast+
  have indexed: "?known w" if "Indexed w \<in> set events" for w
  proof (cases "ev = Indexed w")
    case True
    with i1 show ?thesis by auto
  next
    case False
    with that events have "Indexed w \<in> set evs" by simp
    with i2 consider "w = m_CurrentOutputWindow s1" | "w \<in> dom (m_OutputWindows s1)"
      | "Drew (Handle w) \<in> set evs" | "w = 0"
      by blast
    then show ?thesis
    proof cases
      case 1 with kc show ?thesis by simp
    next
      case 2 with k1 show ?thesis by simp
    next
      case 3 with events show ?thesis by simp
    next
      case 4 then show ?thesis by simp
    qed
  qed
  from c2 consider "m_CurrentOutputWindow s' = m_CurrentOutputWindow s1"
    | "m_CurrentOutputWindow s' \<in> dom (m_OutputWindows s1)"
    | "Drew (Handle (m_CurrentOutputWindow s')) \<in> set evs" | "m_CurrentOutputWindow s' = 0"
    by blast
  then have cur: "?known (m_CurrentOutputWindow s')"
  proof cases
    case 1 with kc show ?thesis by simp
  next
    case 2 with k1 show ?thesis by simp
  next
    case 3 with events show ?thesis by simp
  next
    case 4 then show ?thesis by simp
  qed
  from indexed cur show ?case by blast
qed








end
